theory Spec2Isabelle
  imports Main "HOL-Library.Char_ord" "HOL-Library.List_Lexorder" "HOL-Library.Sublist"
begin

section \<open>JSON values and the scanner of encoding/json\<close>

text \<open>
  The program handles JSON in two places: the reader decodes every inbound frame with
  \<^verbatim>\<open>json.Unmarshal(data, &evt)\<close> into a \<^verbatim>\<open>map[string]any\<close>, and the streamer
  decodes the argument text of a tool call with \<^verbatim>\<open>json.Unmarshal([]byte(argsJSON), &args)\<close>
  into a struct of two \<^verbatim>\<open>float64\<close> fields. Both calls first check the whole input against
  the JSON grammar and then store the values. The grammar is modelled by a scanner that
  reads one byte at a time and keeps a stack of open containers, as the library's scanner
  does. A number is kept as its literal; the conversion to \<^verbatim>\<open>float64\<close> happens when the
  value is stored.
\<close>

datatype 'n json =
    JNull
  | JBool bool
  | JNum 'n
  | JStr string
  | JArr "'n json list"
  | JObj "(string \<times> 'n json) list"

datatype mode =
    BeginValue
  | BeginValueOrEmpty
  | BeginString
  | BeginStringOrEmpty
  | EndValue
  | InString
  | InStringEsc
  | InStringEscU nat
  | Neg
  | Num0
  | Num1
  | Dot
  | Dot0
  | ExpE
  | ESign
  | E0
  | Lit string "string json"
  | Bad

text \<open>
  An open container: the elements of an array read so far, or the members of an object
  read so far together with the key whose value is being read. Both lists are in reverse
  order.
\<close>

datatype frame =
    FArr "string json list"
  | FObj "(string \<times> string json) list" "string option"

record pstate =
  pmode :: mode
  pstack :: "frame list"
  ptok :: string
  presult :: "string json option"

definition isSpace :: "char \<Rightarrow> bool" where
  "isSpace c = (c = CHR '' '' \<or> c = CHR 0x09 \<or> c = CHR 0x0D \<or> c = CHR 0x0A)"

definition isDigit :: "char \<Rightarrow> bool" where
  "isDigit c = (of_char c \<ge> (48::nat) \<and> of_char c \<le> (57::nat))"

definition isHex :: "char \<Rightarrow> bool" where
  "isHex c = (isDigit c
     \<or> (of_char c \<ge> (97::nat) \<and> of_char c \<le> (102::nat))
     \<or> (of_char c \<ge> (65::nat) \<and> of_char c \<le> (70::nat)))"

definition hexVal :: "char \<Rightarrow> nat" where
  "hexVal c = (if isDigit c then of_char c - 48
     else if of_char c \<ge> (97::nat) then of_char c - 87
     else of_char c - 55)"

text \<open>UTF-8 encoding of a code point, as \<^verbatim>\<open>utf8.EncodeRune\<close> writes it.\<close>

definition encodeRune :: "nat \<Rightarrow> string" where
  "encodeRune r =
     (if r < 0x80 then [char_of r]
      else if r < 0x800 then [char_of (0xC0 + r div 64), char_of (0x80 + r mod 64)]
      else if r < 0x10000 then
        [char_of (0xE0 + r div 4096), char_of (0x80 + (r div 64) mod 64), char_of (0x80 + r mod 64)]
      else
        [char_of (0xF0 + r div 262144), char_of (0x80 + (r div 4096) mod 64),
         char_of (0x80 + (r div 64) mod 64), char_of (0x80 + r mod 64)])"

definition getu4 :: "string \<Rightarrow> nat option" where
  "getu4 s =
     (case s of
        b # u # h1 # h2 # h3 # h4 # _ \<Rightarrow>
          if b = CHR 0x5C \<and> u = CHR ''u'' \<and> isHex h1 \<and> isHex h2 \<and> isHex h3 \<and> isHex h4
          then Some (((hexVal h1 * 16 + hexVal h2) * 16 + hexVal h3) * 16 + hexVal h4)
          else None
      | _ \<Rightarrow> None)"

definition isSurrogate :: "nat \<Rightarrow> bool" where
  "isSurrogate r = (0xD800 \<le> r \<and> r < 0xE000)"

definition decodeSurrogates :: "nat \<Rightarrow> nat \<Rightarrow> nat option" where
  "decodeSurrogates r1 r2 =
     (if 0xD800 \<le> r1 \<and> r1 < 0xDC00 \<and> 0xDC00 \<le> r2 \<and> r2 < 0xE000
      then Some ((r1 - 0xD800) * 1024 + (r2 - 0xDC00) + 0x10000)
      else None)"

definition simpleEscape :: "char \<Rightarrow> char" where
  "simpleEscape c =
     (if c = CHR ''b'' then CHR 0x08
      else if c = CHR ''f'' then CHR 0x0C
      else if c = CHR ''n'' then CHR 0x0A
      else if c = CHR ''r'' then CHR 0x0D
      else if c = CHR ''t'' then CHR 0x09
      else c)"

text \<open>
  The number of bytes of the UTF-8 sequence at the head of \<open>s\<close>, whose first byte is not
  ASCII, or \<open>0\<close> when no well-formed sequence starts there: the sequences that
  \<^verbatim>\<open>utf8.DecodeRune\<close> accepts (no overlong forms, no surrogates, nothing above U+10FFFF).
\<close>

definition isCont :: "char \<Rightarrow> bool" where
  "isCont c = (of_char c \<ge> (0x80::nat) \<and> of_char c \<le> (0xBF::nat))"

definition secondLo :: "nat \<Rightarrow> nat" where
  "secondLo b0 = (if b0 = 0xE0 then 0xA0 else if b0 = 0xF0 then 0x90 else 0x80)"

definition secondHi :: "nat \<Rightarrow> nat" where
  "secondHi b0 = (if b0 = 0xED then 0x9F else if b0 = 0xF4 then 0x8F else 0xBF)"

definition secondOk :: "char \<Rightarrow> char \<Rightarrow> bool" where
  "secondOk c0 c1 = (secondLo (of_char c0) \<le> (of_char c1 :: nat) \<and> (of_char c1 :: nat) \<le> secondHi (of_char c0))"

definition utf8Len :: "string \<Rightarrow> nat" where
  "utf8Len s =
     (case s of
        [] \<Rightarrow> 0
      | c0 # r \<Rightarrow>
          (if (0xC2::nat) \<le> of_char c0 \<and> of_char c0 \<le> (0xDF::nat) then
             (case r of c1 # _ \<Rightarrow> if isCont c1 then 2 else 0 | _ \<Rightarrow> 0)
           else if (0xE0::nat) \<le> of_char c0 \<and> of_char c0 \<le> (0xEF::nat) then
             (case r of c1 # c2 # _ \<Rightarrow> if secondOk c0 c1 \<and> isCont c2 then 3 else 0 | _ \<Rightarrow> 0)
           else if (0xF0::nat) \<le> of_char c0 \<and> of_char c0 \<le> (0xF4::nat) then
             (case r of c1 # c2 # c3 # _ \<Rightarrow>
                          if secondOk c0 c1 \<and> isCont c2 \<and> isCont c3 then 4 else 0
                      | _ \<Rightarrow> 0)
           else 0))"

text \<open>
  The text of a string literal, from the bytes between its quotes, as the library's
  \<^verbatim>\<open>unquote\<close> computes it. The scanner has already accepted the literal, so every
  backslash starts a well-formed escape. A \<^verbatim>\<open>\u\<close> escape is written in UTF-8; a surrogate
  pair is one code point and a lone surrogate is U+FFFD. An ASCII byte is copied, a
  well-formed UTF-8 sequence is copied, and a byte that starts no well-formed sequence is
  replaced by U+FFFD.
\<close>

text \<open>
  One \<^verbatim>\<open>\u\<close> escape at the head of \<open>s\<close>: the bytes it stands for and the number of
  bytes of \<open>s\<close> it takes.
\<close>

definition unquoteU :: "string \<Rightarrow> string \<times> nat" where
  "unquoteU s =
     (case getu4 s of
        None \<Rightarrow> ([], length s)
      | Some r1 \<Rightarrow>
          (if isSurrogate r1 then
             (case getu4 (drop 6 s) of
                None \<Rightarrow> (encodeRune 0xFFFD, 6)
              | Some r2 \<Rightarrow>
                  (case decodeSurrogates r1 r2 of
                     Some r \<Rightarrow> (encodeRune r, 12)
                   | None \<Rightarrow> (encodeRune 0xFFFD, 6)))
           else (encodeRune r1, 6)))"

function unquote :: "string \<Rightarrow> string" where
  "unquote [] = []"
| "unquote (c # cs) =
     (if c = CHR 0x5C then
        (case cs of
           [] \<Rightarrow> []
         | e # rest \<Rightarrow>
             (if e \<noteq> CHR ''u'' then simpleEscape e # unquote rest
              else fst (unquoteU (c # cs)) @ unquote (drop (snd (unquoteU (c # cs)) - 2) rest)))
      else if of_char c < (0x80::nat) then c # unquote cs
      else if utf8Len (c # cs) = 0 then encodeRune 0xFFFD @ unquote cs
      else take (utf8Len (c # cs)) (c # cs) @ unquote (drop (utf8Len (c # cs) - 1) cs))"
  by pat_completeness auto
termination
  by (relation "measure length") auto

subsection \<open>The scanner\<close>

definition pinit :: pstate where
  "pinit = \<lparr>pmode = BeginValue, pstack = [], ptok = [], presult = None\<rparr>"

definition pbad :: "pstate \<Rightarrow> pstate" where
  "pbad s = s\<lparr>pmode := Bad\<rparr>"

text \<open>
  Opening a container, \<^verbatim>\<open>pushParseState\<close>: the scanner fails with
  \<^verbatim>\<open>exceeded max depth\<close> when more than \<^verbatim>\<open>maxNestingDepth\<close> containers would be open.
\<close>

definition maxNestingDepth :: nat where
  "maxNestingDepth = 10000"

definition pushParseState :: "pstate \<Rightarrow> frame \<Rightarrow> mode \<Rightarrow> pstate" where
  "pushParseState s f m =
     (if Suc (length (pstack s)) \<le> maxNestingDepth
      then s\<lparr>pmode := m, pstack := f # pstack s\<rparr>
      else pbad s)"

text \<open>
  A value is complete: it becomes the result when no container is open, the next
  element of the open array, or the key or the value of the next member of the open
  object.
\<close>

definition finish :: "string json \<Rightarrow> pstate \<Rightarrow> pstate" where
  "finish v s =
     (case pstack s of
        [] \<Rightarrow> s\<lparr>pmode := EndValue, ptok := [], presult := Some v\<rparr>
      | FArr xs # fs \<Rightarrow> s\<lparr>pmode := EndValue, ptok := [], pstack := FArr (v # xs) # fs\<rparr>
      | FObj ms (Some k) # fs \<Rightarrow>
          s\<lparr>pmode := EndValue, ptok := [], pstack := FObj ((k, v) # ms) None # fs\<rparr>
      | FObj ms None # fs \<Rightarrow>
          (case v of
             JStr k \<Rightarrow> s\<lparr>pmode := EndValue, ptok := [], pstack := FObj ms (Some k) # fs\<rparr>
           | _ \<Rightarrow> pbad s))"

text \<open>The byte after a complete value: \<^verbatim>\<open>stateEndValue\<close>.\<close>

definition endValue :: "pstate \<Rightarrow> char \<Rightarrow> pstate" where
  "endValue s c =
     (if isSpace c then s
      else (case pstack s of
        [] \<Rightarrow> pbad s
      | FObj ms (Some k) # fs \<Rightarrow>
          (if c = CHR '':'' then s\<lparr>pmode := BeginValue\<rparr> else pbad s)
      | FObj ms None # fs \<Rightarrow>
          (if c = CHR '','' then s\<lparr>pmode := BeginString\<rparr>
           else if c = CHR ''}'' then finish (JObj (rev ms)) (s\<lparr>pstack := fs\<rparr>)
           else pbad s)
      | FArr xs # fs \<Rightarrow>
          (if c = CHR '','' then s\<lparr>pmode := BeginValue\<rparr>
           else if c = CHR '']'' then finish (JArr (rev xs)) (s\<lparr>pstack := fs\<rparr>)
           else pbad s)))"

text \<open>The first byte of a value: \<^verbatim>\<open>stateBeginValue\<close>.\<close>

definition beginValue :: "pstate \<Rightarrow> char \<Rightarrow> pstate" where
  "beginValue s c =
     (if isSpace c then s\<lparr>pmode := BeginValue\<rparr>
      else if c = CHR ''{'' then pushParseState s (FObj [] None) BeginStringOrEmpty
      else if c = CHR ''['' then pushParseState s (FArr []) BeginValueOrEmpty
      else if c = CHR 0x22 then s\<lparr>pmode := InString, ptok := []\<rparr>
      else if c = CHR ''-'' then s\<lparr>pmode := Neg, ptok := [c]\<rparr>
      else if c = CHR ''0'' then s\<lparr>pmode := Num0, ptok := [c]\<rparr>
      else if isDigit c then s\<lparr>pmode := Num1, ptok := [c]\<rparr>
      else if c = CHR ''t'' then s\<lparr>pmode := Lit ''rue'' (JBool True)\<rparr>
      else if c = CHR ''f'' then s\<lparr>pmode := Lit ''alse'' (JBool False)\<rparr>
      else if c = CHR ''n'' then s\<lparr>pmode := Lit ''ull'' JNull\<rparr>
      else pbad s)"

definition beginString :: "pstate \<Rightarrow> char \<Rightarrow> pstate" where
  "beginString s c =
     (if isSpace c then s\<lparr>pmode := BeginString\<rparr>
      else if c = CHR 0x22 then s\<lparr>pmode := InString, ptok := []\<rparr>
      else pbad s)"

text \<open>The end of a number literal: the byte that ends it is read again after the value.\<close>

definition endNumber :: "pstate \<Rightarrow> char \<Rightarrow> pstate" where
  "endNumber s c = endValue (finish (JNum (rev (ptok s))) s) c"

definition push :: "pstate \<Rightarrow> char \<Rightarrow> mode \<Rightarrow> pstate" where
  "push s c m = s\<lparr>pmode := m, ptok := c # ptok s\<rparr>"

definition pstep :: "pstate \<Rightarrow> char \<Rightarrow> pstate" where
  "pstep s c =
     (case pmode s of
        Bad \<Rightarrow> s
      | BeginValue \<Rightarrow> beginValue s c
      | BeginValueOrEmpty \<Rightarrow>
          (if isSpace c then s
           else if c = CHR '']'' then finish (JArr []) (s\<lparr>pstack := tl (pstack s)\<rparr>)
           else beginValue s c)
      | BeginString \<Rightarrow> beginString s c
      | BeginStringOrEmpty \<Rightarrow>
          (if isSpace c then s
           else if c = CHR ''}'' then finish (JObj []) (s\<lparr>pstack := tl (pstack s)\<rparr>)
           else beginString s c)
      | EndValue \<Rightarrow> endValue s c
      | InString \<Rightarrow>
          (if c = CHR 0x22 then finish (JStr (unquote (rev (ptok s)))) s
           else if c = CHR 0x5C then push s c InStringEsc
           else if of_char c < (0x20::nat) then pbad s
           else push s c InString)
      | InStringEsc \<Rightarrow>
          (if c = CHR ''b'' \<or> c = CHR ''f'' \<or> c = CHR ''n'' \<or> c = CHR ''r'' \<or> c = CHR ''t''
              \<or> c = CHR 0x5C \<or> c = CHR ''/'' \<or> c = CHR 0x22
           then push s c InString
           else if c = CHR ''u'' then push s c (InStringEscU 4)
           else pbad s)
      | InStringEscU n \<Rightarrow>
          (if isHex c then push s c (if n \<le> 1 then InString else InStringEscU (n - 1))
           else pbad s)
      | Neg \<Rightarrow>
          (if c = CHR ''0'' then push s c Num0
           else if isDigit c then push s c Num1
           else pbad s)
      | Num1 \<Rightarrow>
          (if isDigit c then push s c Num1
           else if c = CHR ''.'' then push s c Dot
           else if c = CHR ''e'' \<or> c = CHR ''E'' then push s c ExpE
           else endNumber s c)
      | Num0 \<Rightarrow>
          (if c = CHR ''.'' then push s c Dot
           else if c = CHR ''e'' \<or> c = CHR ''E'' then push s c ExpE
           else endNumber s c)
      | Dot \<Rightarrow> (if isDigit c then push s c Dot0 else pbad s)
      | Dot0 \<Rightarrow>
          (if isDigit c then push s c Dot0
           else if c = CHR ''e'' \<or> c = CHR ''E'' then push s c ExpE
           else endNumber s c)
      | ExpE \<Rightarrow>
          (if c = CHR ''+'' \<or> c = CHR ''-'' then push s c ESign
           else if isDigit c then push s c E0
           else pbad s)
      | ESign \<Rightarrow> (if isDigit c then push s c E0 else pbad s)
      | E0 \<Rightarrow> (if isDigit c then push s c E0 else endNumber s c)
      | Lit r v \<Rightarrow>
          (case r of
             [] \<Rightarrow> pbad s
           | x # r' \<Rightarrow>
               (if c \<noteq> x then pbad s
                else if r' = [] then finish v s
                else s\<lparr>pmode := Lit r' v\<rparr>)))"

definition endTop :: "pstate \<Rightarrow> bool" where
  "endTop s = (pmode s = EndValue \<and> pstack s = [])"

text \<open>
  The whole input, as \<^verbatim>\<open>checkValid\<close> reads it: at the end of the input the scanner is
  given one more space, which ends a number at the top level, and the input is valid
  when that leaves a complete value with no container open.
\<close>

definition parse :: "string \<Rightarrow> string json option" where
  "parse data =
     (let s = foldl pstep pinit data;
          s' = (if endTop s then s else pstep s (CHR '' ''))
      in if endTop s' then presult s' else None)"

section \<open>Errors\<close>

text \<open>
  A Go error is a value with a message and, when it was built with \<^verbatim>\<open>%w\<close>, the error it
  wraps. \<open>New\<close> is an error built from a text alone (\<^verbatim>\<open>errors.New\<close>, or \<^verbatim>\<open>fmt.Errorf\<close>
  without \<^verbatim>\<open>%w\<close>); \<open>Wrap p e\<close> is \<^verbatim>\<open>fmt.Errorf(p + "%w", e)\<close>. The other constructors
  are the errors of the libraries: the two values of \<^verbatim>\<open>ctx.Err()\<close>, the two kinds of
  error of \<^verbatim>\<open>json.Unmarshal\<close>, and an error of the websocket connection with its text.
\<close>

datatype ctxerr = Canceled | DeadlineExceeded

datatype error =
    Ctx ctxerr
  | SyntaxError
  | UnmarshalTypeError
  | ConnError string
  | New string
  | Wrap string error

text \<open>
  The message of an error, \<^verbatim>\<open>err.Error()\<close>. The texts that encoding/json gives its
  errors are not modelled: they are the parameter \<open>jsonText\<close>.
\<close>

fun errorText :: "(error \<Rightarrow> string) \<Rightarrow> error \<Rightarrow> string" where
  "errorText jsonText (New s) = s"
| "errorText jsonText (Wrap p e) = p @ errorText jsonText e"
| "errorText jsonText (Ctx Canceled) = ''context canceled''"
| "errorText jsonText (Ctx DeadlineExceeded) = ''context deadline exceeded''"
| "errorText jsonText (ConnError s) = s"
| "errorText jsonText SyntaxError = jsonText SyntaxError"
| "errorText jsonText UnmarshalTypeError = jsonText UnmarshalTypeError"

section \<open>What the program takes from its libraries\<close>

text \<open>
  \<^verbatim>\<open>float64\<close> is the type \<open>'f\<close>, and its operations are parameters: the conversion of a
  number literal (\<^verbatim>\<open>strconv.ParseFloat(s, 64)\<close>, which fails when the value is out of
  range), the zero value, the product, the text that \<^verbatim>\<open>%g\<close> prints, and the text that
  \<^verbatim>\<open>json.Marshal\<close> writes for a \<^verbatim>\<open>float64\<close>.
\<close>

type_synonym 'f event = "string \<rightharpoonup> 'f json"

record 'f golib =
  parseFloat :: "string \<Rightarrow> 'f option"
  fzero :: 'f
  fmul :: "'f \<Rightarrow> 'f \<Rightarrow> 'f"
  formatG :: "'f \<Rightarrow> string"
  formatFloat :: "'f \<Rightarrow> string"

section \<open>Decoding the arguments of a tool call\<close>

text \<open>
  \<^verbatim>\<open>
  var args struct {
      A float64 `json:"a"`
      B float64 `json:"b"`
  }
  err := json.Unmarshal([]byte(argsJSON), &args)
  \<close>
  The library stores a member of the object in the field whose name is the key, or is
  the key up to the case of its letters; it skips every other member. A number is
  converted and stored, \<^verbatim>\<open>null\<close> leaves the field as it is, and any other value is a
  type error, which does not stop the decoding but is returned at its end. A field that
  no member names keeps its zero value. At the top level \<^verbatim>\<open>null\<close> leaves the struct as it
  is, and a value that is neither \<^verbatim>\<open>null\<close> nor an object is a type error.
\<close>

record 'f args =
  argA :: 'f
  argB :: 'f

datatype field = FieldA | FieldB

definition fieldOf :: "string \<Rightarrow> field option" where
  "fieldOf k =
     (if k = ''a'' \<or> k = ''A'' then Some FieldA
      else if k = ''b'' \<or> k = ''B'' then Some FieldB
      else None)"

definition storeFloat :: "'f golib \<Rightarrow> string json \<Rightarrow> 'f \<Rightarrow> 'f \<times> bool" where
  "storeFloat L v old =
     (case v of
        JNum lit \<Rightarrow> (case parseFloat L lit of Some x \<Rightarrow> (x, True) | None \<Rightarrow> (old, False))
      | JNull \<Rightarrow> (old, True)
      | _ \<Rightarrow> (old, False))"

definition storeMember :: "'f golib \<Rightarrow> 'f args \<times> bool \<Rightarrow> string \<times> string json \<Rightarrow> 'f args \<times> bool" where
  "storeMember L acc m =
     (case fieldOf (fst m) of
        None \<Rightarrow> acc
      | Some FieldA \<Rightarrow>
          (let r = storeFloat L (snd m) (argA (fst acc))
           in ((fst acc)\<lparr>argA := fst r\<rparr>, snd acc \<and> snd r))
      | Some FieldB \<Rightarrow>
          (let r = storeFloat L (snd m) (argB (fst acc))
           in ((fst acc)\<lparr>argB := fst r\<rparr>, snd acc \<and> snd r)))"

definition unmarshalArgs :: "'f golib \<Rightarrow> string \<Rightarrow> error + 'f args" where
  "unmarshalArgs L data =
     (let zero = \<lparr>argA = fzero L, argB = fzero L\<rparr> in
      case parse data of
        None \<Rightarrow> Inl SyntaxError
      | Some v \<Rightarrow>
          (case v of
             JNull \<Rightarrow> Inr zero
           | JObj ms \<Rightarrow>
               (let r = foldl (storeMember L) (zero, True) ms
                in if snd r then Inr (fst r) else Inl UnmarshalTypeError)
           | _ \<Rightarrow> Inl UnmarshalTypeError))"

definition multiply :: "'f golib \<Rightarrow> 'f \<Rightarrow> 'f \<Rightarrow> 'f" where
  "multiply L a b = fmul L a b"

section \<open>The connection\<close>

text \<open>
  The connection records the messages written to it, in order. Whether a write fails is
  decided outside the program: \<open>writeResults\<close> lists, for the writes still to come, the
  error of each one that fails; once the list is used up every write succeeds. A message
  is recorded as the value handed to \<^verbatim>\<open>json.Marshal\<close>, which cannot fail on the maps of
  strings that the program builds.
\<close>

record 'f conn =
  written :: "'f json list"
  writeResults :: "error option list"

definition connWrite :: "'f conn \<Rightarrow> 'f json \<Rightarrow> error option \<times> 'f conn" where
  "connWrite c m =
     (case writeResults c of
        [] \<Rightarrow> (None, c\<lparr>written := written c @ [m]\<rparr>)
      | None # rs \<Rightarrow> (None, c\<lparr>written := written c @ [m], writeResults := rs\<rparr>)
      | Some e # rs \<Rightarrow> (Some e, c\<lparr>writeResults := rs\<rparr>))"

definition marshalAndSend :: "'f conn \<Rightarrow> 'f json \<Rightarrow> error option \<times> 'f conn" where
  "marshalAndSend c data =
     (case connWrite c data of
        (Some e, c') \<Rightarrow> (Some (Wrap ''write error: '' e), c')
      | (None, c') \<Rightarrow> (None, c'))"

definition functionOutputMsg :: "string \<Rightarrow> string \<Rightarrow> 'f json" where
  "functionOutputMsg callID outputJSON =
     JObj [(''type'', JStr ''conversation.item.create''),
           (''item'', JObj [(''type'', JStr ''function_call_output''),
                            (''call_id'', JStr callID),
                            (''output'', JStr outputJSON)])]"

definition sendFunctionOutput :: "'f conn \<Rightarrow> string \<Rightarrow> string \<Rightarrow> error option \<times> 'f conn" where
  "sendFunctionOutput c callID outputJSON = marshalAndSend c (functionOutputMsg callID outputJSON)"

section \<open>Events and the event queue\<close>

text \<open>\<^verbatim>\<open>s, _ := evt[k].(string)\<close>: the empty string when the key is absent or not a string.\<close>

definition strField :: "'f event \<Rightarrow> string \<Rightarrow> string" where
  "strField evt k = (case evt k of Some (JStr s) \<Rightarrow> s | _ \<Rightarrow> [])"

text \<open>
  What one \<^verbatim>\<open>select\<close> of a waiting loop observes: the context is done, an event is
  received, or the queue is closed. A run of the loop is given the list of what its
  selects observe; a loop that has used up the list without returning is still waiting.
\<close>

datatype 'f sel =
    CtxDone ctxerr
  | Recv "'f event"
  | ChanClosed

section \<open>json.Marshal of an event\<close>

text \<open>
  Both loops put \<^verbatim>\<open>json.Marshal(evt)\<close> in the error they return for a server error. The
  encoder writes a string between quotes with \<^verbatim>\<open>"\<close> and the backslash escaped, the
  control characters as \<^verbatim>\<open>\b \f \n \r \t\<close> or \<^verbatim>\<open>\u00XX\<close>, and \<^verbatim>\<open>< > &\<close> as \<^verbatim>\<open>\u00XX\<close>
  too; a byte that starts no well-formed UTF-8 sequence becomes \<^verbatim>\<open>\ufffd\<close>, and U+2028
  and U+2029 are escaped (\<^verbatim>\<open>appendString\<close> with HTML escaping, as of Go 1.22).
\<close>

definition hexDigit :: "nat \<Rightarrow> char" where
  "hexDigit n = ''0123456789abcdef'' ! (n mod 16)"

definition escapeASCII :: "char \<Rightarrow> string" where
  "escapeASCII c =
     (if c = CHR 0x22 \<or> c = CHR 0x5C then [CHR 0x5C, c]
      else if (0x20::nat) \<le> of_char c \<and> c \<noteq> CHR ''<'' \<and> c \<noteq> CHR ''>'' \<and> c \<noteq> CHR ''&'' then [c]
      else if c = CHR 0x08 then [CHR 0x5C, CHR ''b'']
      else if c = CHR 0x0C then [CHR 0x5C, CHR ''f'']
      else if c = CHR 0x0A then [CHR 0x5C, CHR ''n'']
      else if c = CHR 0x0D then [CHR 0x5C, CHR ''r'']
      else if c = CHR 0x09 then [CHR 0x5C, CHR ''t'']
      else [CHR 0x5C, CHR ''u'', CHR ''0'', CHR ''0'',
            hexDigit (of_char c div 16), hexDigit (of_char c mod 16)])"

function escapeString :: "string \<Rightarrow> string" where
  "escapeString [] = []"
| "escapeString (c # cs) =
     (if of_char c < (0x80::nat) then escapeASCII c @ escapeString cs
      else if utf8Len (c # cs) = 0 then CHR 0x5C # ''ufffd'' @ escapeString cs
      else if take 3 (c # cs) = [CHR 0xE2, CHR 0x80, CHR 0xA8]
        then CHR 0x5C # ''u2028'' @ escapeString (drop 2 cs)
      else if take 3 (c # cs) = [CHR 0xE2, CHR 0x80, CHR 0xA9]
        then CHR 0x5C # ''u2029'' @ escapeString (drop 2 cs)
      else take (utf8Len (c # cs)) (c # cs) @ escapeString (drop (utf8Len (c # cs) - 1) cs))"
  by pat_completeness auto
termination
  by (relation "measure length") auto

definition appendString :: "string \<Rightarrow> string" where
  "appendString s = CHR 0x22 # escapeString s @ [CHR 0x22]"

fun joinComma :: "string list \<Rightarrow> string" where
  "joinComma [] = []"
| "joinComma [x] = x"
| "joinComma (x # y # ys) = x @ CHR '','' # joinComma (y # ys)"

text \<open>
  The encoding of a value held in an \<^verbatim>\<open>any\<close>. A \<^verbatim>\<open>map[string]any\<close> inside a value is the
  list of its members in the order of their keys, which is the order the encoder writes
  them in.
\<close>

fun marshalValue :: "'f golib \<Rightarrow> 'f json \<Rightarrow> string" where
  "marshalValue L JNull = ''null''"
| "marshalValue L (JBool b) = (if b then ''true'' else ''false'')"
| "marshalValue L (JNum x) = formatFloat L x"
| "marshalValue L (JStr s) = appendString s"
| "marshalValue L (JArr xs) = CHR ''['' # joinComma (map (marshalValue L) xs) @ '']''"
| "marshalValue L (JObj ms) =
     CHR ''{'' # joinComma (map (\<lambda>m. appendString (fst m) @ CHR '':'' # marshalValue L (snd m)) ms) @ ''}''"

text \<open>
  The encoding of an event: its members, sorted by key. Both loops encode only an event
  whose type is \<^verbatim>\<open>error\<close>, which is not the nil map.
\<close>

definition marshalMember :: "'f golib \<Rightarrow> 'f event \<Rightarrow> string \<Rightarrow> string" where
  "marshalMember L evt k =
     appendString k @ CHR '':'' # (case evt k of Some v \<Rightarrow> marshalValue L v | None \<Rightarrow> ''null'')"

definition marshal :: "'f golib \<Rightarrow> 'f event \<Rightarrow> string" where
  "marshal L evt =
     CHR ''{'' # joinComma (map (marshalMember L evt) (sorted_list_of_set (dom evt))) @ ''}''"

section \<open>waitForEventTypeFromChan\<close>

fun waitForEventTypeFromChan :: "'f golib \<Rightarrow> 'f sel list \<Rightarrow> string \<Rightarrow> error option option" where
  "waitForEventTypeFromChan L [] expectedEventType = None"
| "waitForEventTypeFromChan L (CtxDone ce # rest) expectedEventType =
     Some (Some (Wrap (''timeout waiting for '' @ expectedEventType @ '': '') (Ctx ce)))"
| "waitForEventTypeFromChan L (ChanClosed # rest) expectedEventType =
     Some (Some (New (''events channel closed while waiting for '' @ expectedEventType)))"
| "waitForEventTypeFromChan L (Recv evt # rest) expectedEventType =
     (let typ = strField evt ''type'' in
      if typ = ''error'' then Some (Some (New (''server error: '' @ marshal L evt)))
      else if typ = expectedEventType then Some None
      else waitForEventTypeFromChan L rest expectedEventType)"

section \<open>streamAssistantTextFromChan\<close>

record 'f sstate =
  full :: string
  needFollowUp :: bool
  printedWithNoTool :: bool
  argBuf :: "string \<rightharpoonup> string"
  conn :: "'f conn"
  stdout :: string

datatype control = Continue | Return "error option"

definition onTextDelta :: "'f sstate \<Rightarrow> 'f event \<Rightarrow> control \<times> 'f sstate" where
  "onTextDelta st evt =
     (case evt ''delta'' of
        Some (JStr d) \<Rightarrow>
          (Continue,
           st\<lparr>stdout := stdout st @ (if printedWithNoTool st then [] else ''Chatbot> '') @ d,
              printedWithNoTool := True,
              full := full st @ d\<rparr>)
      | _ \<Rightarrow> (Continue, st))"

definition onArgumentsDelta :: "'f sstate \<Rightarrow> 'f event \<Rightarrow> control \<times> 'f sstate" where
  "onArgumentsDelta st evt =
     (let callID = strField evt ''call_id'';
          delta = strField evt ''delta''
      in if callID = [] \<or> delta = [] then (Continue, st)
         else (Continue,
               st\<lparr>argBuf := (argBuf st)(callID \<mapsto>
                    (case argBuf st callID of None \<Rightarrow> [] | Some b \<Rightarrow> b) @ delta)\<rparr>))"

definition resolveArguments :: "'f sstate \<Rightarrow> 'f event \<Rightarrow> string" where
  "resolveArguments st evt =
     (let argsJSON = strField evt ''arguments''
      in if argsJSON = []
         then (case argBuf st (strField evt ''call_id'') of Some b \<Rightarrow> b | None \<Rightarrow> [])
         else argsJSON)"

definition resultJSON :: "'f golib \<Rightarrow> 'f \<Rightarrow> string" where
  "resultJSON L result = ''{\"result\": '' @ formatG L result @ ''}''"

definition onArgumentsDone :: "'f golib \<Rightarrow> 'f sstate \<Rightarrow> 'f event \<Rightarrow> control \<times> 'f sstate" where
  "onArgumentsDone L st evt =
     (let callID = strField evt ''call_id'' in
      case unmarshalArgs L (resolveArguments st evt) of
        Inl e \<Rightarrow> (Return (Some (Wrap ''bad function args: '' e)), st)
      | Inr args \<Rightarrow>
          (case sendFunctionOutput (conn st) callID
                  (resultJSON L (multiply L (argA args) (argB args))) of
             (Some e, c') \<Rightarrow> (Return (Some e), st\<lparr>conn := c'\<rparr>)
           | (None, c') \<Rightarrow>
               (Continue,
                st\<lparr>conn := c', argBuf := (argBuf st)(callID := None), needFollowUp := True\<rparr>)))"

definition onDone :: "'f sstate \<Rightarrow> control \<times> 'f sstate" where
  "onDone st =
     (Return None,
      st\<lparr>stdout := stdout st @ (if printedWithNoTool st then [CHR 0x0A] else [])\<rparr>)"

text \<open>One received event: the body of the loop after the receive.\<close>

definition streamEvent :: "'f golib \<Rightarrow> 'f sstate \<Rightarrow> 'f event \<Rightarrow> control \<times> 'f sstate" where
  "streamEvent L st evt =
     (let typ = strField evt ''type'' in
      if typ = ''error'' then (Return (Some (New (''server error: '' @ marshal L evt))), st)
      else if typ = ''response.text.delta'' then onTextDelta st evt
      else if typ = ''response.function_call_arguments.delta'' then onArgumentsDelta st evt
      else if typ = ''response.function_call_arguments.done'' then onArgumentsDone L st evt
      else if typ = ''response.text.done'' \<or> typ = ''response.done'' then onDone st
      else (Continue, st))"

text \<open>
  The loop. Its result is the state at the return together with the returned error;
  every \<^verbatim>\<open>return\<close> of the source returns \<^verbatim>\<open>full\<close> and \<^verbatim>\<open>needFollowUp\<close> of that state.
\<close>

fun streamLoop :: "'f golib \<Rightarrow> 'f sstate \<Rightarrow> 'f sel list \<Rightarrow> ('f sstate \<times> error option) option" where
  "streamLoop L st [] = None"
| "streamLoop L st (CtxDone ce # rest) = Some (st, Some (Wrap ''stream timeout: '' (Ctx ce)))"
| "streamLoop L st (ChanClosed # rest) = Some (st, Some (New ''events channel closed during stream''))"
| "streamLoop L st (Recv evt # rest) =
     (case streamEvent L st evt of
        (Continue, st') \<Rightarrow> streamLoop L st' rest
      | (Return r, st') \<Rightarrow> Some (st', r))"

definition sinit :: "'f conn \<Rightarrow> 'f sstate" where
  "sinit c = \<lparr>full = [], needFollowUp = False, printedWithNoTool = False,
              argBuf = Map.empty, conn = c, stdout = []\<rparr>"

definition streamAssistantTextFromChan ::
  "'f golib \<Rightarrow> 'f conn \<Rightarrow> 'f sel list \<Rightarrow> ('f sstate \<times> error option) option" where
  "streamAssistantTextFromChan L c events = streamLoop L (sinit c) events"

text \<open>The three values that the source returns.\<close>

definition returned :: "'f sstate \<times> error option \<Rightarrow> string \<times> bool \<times> error option" where
  "returned r = (full (fst r), needFollowUp (fst r), snd r)"

section \<open>startReader\<close>

text \<open>
  The value that \<^verbatim>\<open>json.Unmarshal(data, &evt)\<close> stores in a \<^verbatim>\<open>map[string]any\<close>: every
  number is converted to \<^verbatim>\<open>float64\<close>, and a number out of range is a type error. An
  object inside the value becomes a map: its members in the order of their keys, a later
  member of the text replacing an earlier one with the same key.
\<close>

definition canonical :: "(string \<times> 'a) list \<Rightarrow> (string \<times> 'a) list" where
  "canonical ms = List.map_filter (\<lambda>k. map_option (Pair k) (map_of (rev ms) k)) (sort (remdups (map fst ms)))"

fun convert :: "'f golib \<Rightarrow> string json \<Rightarrow> 'f json option" where
  "convert L JNull = Some JNull"
| "convert L (JBool b) = Some (JBool b)"
| "convert L (JNum lit) = map_option JNum (parseFloat L lit)"
| "convert L (JStr s) = Some (JStr s)"
| "convert L (JArr xs) = map_option JArr (those (map (convert L) xs))"
| "convert L (JObj ms) =
     map_option (\<lambda>ms'. JObj (canonical ms'))
       (those (map (\<lambda>m. map_option (Pair (fst m)) (convert L (snd m))) ms))"

text \<open>
  At the top level \<^verbatim>\<open>null\<close> leaves the map nil, which reads as the empty map; an object
  becomes the map of its members; any other value is a type error.
\<close>

definition decodeEvent :: "'f golib \<Rightarrow> string \<Rightarrow> error + 'f event" where
  "decodeEvent L data =
     (case parse data of
        None \<Rightarrow> Inl SyntaxError
      | Some v \<Rightarrow>
          (case v of
             JNull \<Rightarrow> Inr Map.empty
           | JObj ms \<Rightarrow>
               (case convert L (JObj ms) of
                  Some (JObj ms') \<Rightarrow> Inr (map_of ms')
                | _ \<Rightarrow> Inl UnmarshalTypeError)
           | _ \<Rightarrow> Inl UnmarshalTypeError))"

text \<open>
  The reader is a goroutine of its own, and its two queues are channels that hold at most
  \<^verbatim>\<open>128\<close> values: a send on a full queue blocks until the foreground has received a
  value from it. A run of the reader is given as a schedule. An item of the schedule is
  what one turn of the reader's loop observes (the context is done, or the read fails, or
  a frame), or it is a receive of the foreground from one of the queues. An observation
  is made only by a reader that is at the head of its loop: one that is blocked in a send,
  or has returned, does not take it. A receive from an empty queue waits, and changes
  nothing.
\<close>

definition queueCap :: nat where
  "queueCap = 128"

datatype rin =
    RCtxDone ctxerr
  | ReadFail error
  | ReadOk string
  | RecvEvent
  | RecvErr

text \<open>
  Where the reader is: at the head of its loop, in one of its three sends, or returned.
  The send of the error of a failed read, or of the context, is followed by the return.
\<close>

datatype 'f rpc =
    AtLoop
  | SendEvent "'f event"
  | SendErrContinue error
  | SendErrReturn error
  | Returned

record 'f rstate =
  rpc :: "'f rpc"
  events :: "'f event list"
  errs :: "error list"
  eventsClosed :: bool
  errsClosed :: bool

text \<open>
  The send that the reader is in completes when its queue has room. After the send of
  \<open>SendErrReturn\<close> the reader returns, and the two deferred calls close both queues.
\<close>

definition proceed :: "'f rstate \<Rightarrow> 'f rstate" where
  "proceed st =
     (case rpc st of
        SendEvent evt \<Rightarrow>
          (if length (events st) < queueCap
           then st\<lparr>rpc := AtLoop, events := events st @ [evt]\<rparr> else st)
      | SendErrContinue e \<Rightarrow>
          (if length (errs st) < queueCap
           then st\<lparr>rpc := AtLoop, errs := errs st @ [e]\<rparr> else st)
      | SendErrReturn e \<Rightarrow>
          (if length (errs st) < queueCap
           then st\<lparr>rpc := Returned, errs := errs st @ [e], eventsClosed := True, errsClosed := True\<rparr>
           else st)
      | _ \<Rightarrow> st)"

text \<open>One turn of the loop, from its head to the send it makes.\<close>

definition observe :: "'f golib \<Rightarrow> 'f rstate \<Rightarrow> rin \<Rightarrow> 'f rstate" where
  "observe L st i =
     (case i of
        RCtxDone ce \<Rightarrow> proceed (st\<lparr>rpc := SendErrReturn (Ctx ce)\<rparr>)
      | ReadFail e \<Rightarrow> proceed (st\<lparr>rpc := SendErrReturn e\<rparr>)
      | ReadOk data \<Rightarrow>
          (case decodeEvent L data of
             Inl e \<Rightarrow>
               proceed (st\<lparr>rpc := SendErrContinue (Wrap ''reader json unmarshal failed: '' e)\<rparr>)
           | Inr evt \<Rightarrow> proceed (st\<lparr>rpc := SendEvent evt\<rparr>))
      | _ \<Rightarrow> st)"

definition readerStep :: "'f golib \<Rightarrow> 'f rstate \<Rightarrow> rin \<Rightarrow> 'f rstate" where
  "readerStep L st i =
     (case i of
        RecvEvent \<Rightarrow> proceed (st\<lparr>events := drop 1 (events st)\<rparr>)
      | RecvErr \<Rightarrow> proceed (st\<lparr>errs := drop 1 (errs st)\<rparr>)
      | _ \<Rightarrow> (if rpc st = AtLoop then observe L st i else st))"

fun readerLoop :: "'f golib \<Rightarrow> 'f rstate \<Rightarrow> rin list \<Rightarrow> 'f rstate" where
  "readerLoop L st [] = st"
| "readerLoop L st (i # rest) = readerLoop L (readerStep L st i) rest"

definition rinit :: "'f rstate" where
  "rinit = \<lparr>rpc = AtLoop, events = [], errs = [], eventsClosed = False, errsClosed = False\<rparr>"

definition startReader :: "'f golib \<Rightarrow> rin list \<Rightarrow> 'f rstate" where
  "startReader L schedule = readerLoop L rinit schedule"

section \<open>Runs of the streamer, and an instance of the parameters\<close>

text \<open>
  The state of the streamer after it has received the events \<open>es\<close>, when none of them
  made it return.
\<close>

fun afterEvents :: "'f golib \<Rightarrow> 'f sstate \<Rightarrow> 'f event list \<Rightarrow> 'f sstate option" where
  "afterEvents L st [] = Some st"
| "afterEvents L st (e # es) =
     (case streamEvent L st e of
        (Continue, st') \<Rightarrow> afterEvents L st' es
      | (Return r, st') \<Rightarrow> None)"

text \<open>
  What a caller can observe of a run: the three returned values, the connection and the
  text printed. The argument buffers are local to the run.
\<close>

definition observed ::
  "'f sstate \<times> error option \<Rightarrow> string \<times> bool \<times> error option \<times> 'f conn \<times> string" where
  "observed r = (full (fst r), needFollowUp (fst r), snd r, conn (fst r), stdout (fst r))"

text \<open>The fragments that the argument deltas \<open>es\<close> carry for the call \<open>C\<close>, joined in order.\<close>

definition fragmentsOf :: "string \<Rightarrow> 'f event list \<Rightarrow> string" where
  "fragmentsOf C es = concat (map (\<lambda>e. strField e ''delta'') (filter (\<lambda>e. strField e ''call_id'' = C) es))"

definition bufferOf :: "string \<Rightarrow> string option" where
  "bufferOf s = (if s = [] then None else Some s)"

text \<open>
  An instance of the parameters, for evaluating the program on examples: \<^verbatim>\<open>float64\<close>
  restricted to the integers written with one to seven digits. Such a literal is
  converted exactly, the product of two of them is exact in \<^verbatim>\<open>float64\<close>, \<^verbatim>\<open>json.Marshal\<close>
  writes such a number in decimal, and \<^verbatim>\<open>%g\<close> prints an integer below \<open>10^6\<close> in decimal
  and a larger one with an exponent. The instance refuses every other literal, which
  \<^verbatim>\<open>float64\<close> does not.
\<close>

function showNat :: "nat \<Rightarrow> string" where
  "showNat n = (if n < 10 then [char_of (48 + n)] else showNat (n div 10) @ [char_of (48 + n mod 10)])"
  by pat_completeness auto
termination
  by (relation "measure id") auto

definition digitsVal :: "string \<Rightarrow> nat" where
  "digitsVal s = foldl (\<lambda>acc c. acc * 10 + (of_char c - 48)) 0 s"

definition stripZeros :: "string \<Rightarrow> string" where
  "stripZeros ds = rev (dropWhile (\<lambda>c. c = CHR ''0'') (rev ds))"

definition showExp :: "nat \<Rightarrow> string" where
  "showExp n =
     (let ds = showNat n; e = length ds - 1; m = stripZeros ds
      in hd m # (if tl m = [] then [] else CHR ''.'' # tl m) @ ''e+''
         @ (if e < 10 then CHR ''0'' # showNat e else showNat e))"

definition exampleLib :: "int golib" where
  "exampleLib =
     \<lparr>parseFloat = (\<lambda>s. if s \<noteq> [] \<and> length s \<le> 7 \<and> list_all isDigit s
                         then Some (int (digitsVal s)) else None),
      fzero = 0,
      fmul = (\<lambda>a b. a * b),
      formatG = (\<lambda>x. if x < 0 then CHR ''-'' # showNat (nat (- x))
                      else if x < 1000000 then showNat (nat x) else showExp (nat x)),
      formatFloat = (\<lambda>x. if x < 0 then CHR ''-'' # showNat (nat (- x)) else showNat (nat x))\<rparr>"

definition exampleConn :: "int conn" where
  "exampleConn = \<lparr>written = [], writeResults = []\<rparr>"

text \<open>The state after text deltas carrying the texts \<open>ds\<close>.\<close>

definition afterText :: "'f sstate \<Rightarrow> string list \<Rightarrow> 'f sstate" where
  "afterText st ds =
     (if ds = [] then st
      else st\<lparr>stdout := stdout st @ (if printedWithNoTool st then [] else ''Chatbot> '') @ concat ds,
              printedWithNoTool := True,
              full := full st @ concat ds\<rparr>)"

text \<open>The next write on the connection succeeds.\<close>

definition nextWriteSucceeds :: "'f conn \<Rightarrow> bool" where
  "nextWriteSucceeds c = (case writeResults c of [] \<Rightarrow> True | r # rs \<Rightarrow> r = None)"

text \<open>The state after the argument deltas \<open>es\<close>: each call has its own fragments appended.\<close>

definition afterDeltas :: "'f sstate \<Rightarrow> 'f event list \<Rightarrow> 'f sstate" where
  "afterDeltas st es =
     st\<lparr>argBuf := (\<lambda>C. if C = [] \<or> fragmentsOf C es = [] then argBuf st C
                        else Some ((case argBuf st C of None \<Rightarrow> [] | Some b \<Rightarrow> b) @ fragmentsOf C es))\<rparr>"

section \<open>Basic facts\<close>

lemma parse_empty: "parse [] = None"
  by (simp add: parse_def pstep_def pinit_def beginValue_def endTop_def isSpace_def)

lemma unmarshalArgs_empty: "unmarshalArgs L [] = Inl SyntaxError"
  by (simp add: unmarshalArgs_def parse_empty)

lemma streamEvent_error:
  "strField evt ''type'' = ''error'' \<Longrightarrow>
   streamEvent L st evt = (Return (Some (New (''server error: '' @ marshal L evt))), st)"
  by (simp add: streamEvent_def)

lemma streamEvent_text_delta:
  "strField evt ''type'' = ''response.text.delta'' \<Longrightarrow> streamEvent L st evt = onTextDelta st evt"
  by (simp add: streamEvent_def)

lemma streamEvent_arguments_delta:
  "strField evt ''type'' = ''response.function_call_arguments.delta'' \<Longrightarrow>
   streamEvent L st evt = onArgumentsDelta st evt"
  by (simp add: streamEvent_def)

lemma streamEvent_arguments_done:
  "strField evt ''type'' = ''response.function_call_arguments.done'' \<Longrightarrow>
   streamEvent L st evt = onArgumentsDone L st evt"
  by (simp add: streamEvent_def)

lemma streamEvent_done:
  "strField evt ''type'' = ''response.text.done'' \<or> strField evt ''type'' = ''response.done'' \<Longrightarrow>
   streamEvent L st evt = onDone st"
  by (auto simp add: streamEvent_def)

lemma streamLoop_afterEvents:
  "afterEvents L st es = Some st' \<Longrightarrow> streamLoop L st (map Recv es @ rest) = streamLoop L st' rest"
  by (induction es arbitrary: st) (auto split: prod.splits control.splits)

lemma afterEvents_append:
  "afterEvents L st (es @ es') =
     (case afterEvents L st es of None \<Rightarrow> None | Some st' \<Rightarrow> afterEvents L st' es')"
  by (induction es arbitrary: st) (auto split: prod.splits control.splits)

lemma afterEvents_text_deltas:
  "list_all2 (\<lambda>e d. strField e ''type'' = ''response.text.delta'' \<and> e ''delta'' = Some (JStr d)) es ds \<Longrightarrow>
   afterEvents L st es = Some (afterText st ds)"
proof (induction es ds arbitrary: st rule: list_all2_induct)
  case Nil
  then show ?case by (simp add: afterText_def)
next
  case (Cons e es d ds)
  have step: "streamEvent L st e = (Continue, afterText st [d])"
    using Cons.hyps(1) by (simp add: streamEvent_text_delta onTextDelta_def afterText_def)
  have "afterText (afterText st [d]) ds = afterText st (d # ds)"
    by (simp add: afterText_def)
  with step Cons.IH [of "afterText st [d]"] show ?case by simp
qed

lemma wait_skip:
  "\<forall>e\<in>set pre. strField e ''type'' \<noteq> ''error'' \<and> strField e ''type'' \<noteq> expected \<Longrightarrow>
   waitForEventTypeFromChan L (map Recv pre @ rest) expected = waitForEventTypeFromChan L rest expected"
  by (induction pre) simp_all

lemma sendFunctionOutput_ok:
  "nextWriteSucceeds c \<Longrightarrow>
   sendFunctionOutput c callID out
     = (None, c\<lparr>written := written c @ [functionOutputMsg callID out], writeResults := tl (writeResults c)\<rparr>)"
  by (auto simp add: nextWriteSucceeds_def sendFunctionOutput_def marshalAndSend_def connWrite_def
      split: list.splits option.splits)

lemma streamEvent_keeps_followUp:
  "needFollowUp st \<Longrightarrow> needFollowUp (snd (streamEvent L st e))"
  by (auto simp add: streamEvent_def onTextDelta_def onArgumentsDelta_def onArgumentsDone_def
      onDone_def Let_def split: option.splits json.splits sum.splits prod.splits)

lemma streamLoop_keeps_followUp:
  "needFollowUp st \<Longrightarrow> streamLoop L st obs = Some (st', r) \<Longrightarrow> needFollowUp st'"
proof (induction obs arbitrary: st)
  case Nil
  then show ?case by simp
next
  case (Cons ob obs)
  show ?case
  proof (cases ob)
    case (Recv evt)
    obtain k st1 where ev: "streamEvent L st evt = (k, st1)" by (cases "streamEvent L st evt")
    with streamEvent_keeps_followUp [OF Cons.prems(1), of L evt] have f1: "needFollowUp st1" by simp
    show ?thesis
    proof (cases k)
      case Continue
      with Cons.prems(2) Recv ev have "streamLoop L st1 obs = Some (st', r)" by simp
      with Cons.IH [OF f1] show ?thesis .
    next
      case (Return x)
      with Cons.prems(2) Recv ev f1 show ?thesis by simp
    qed
  qed (use Cons.prems in auto)
qed

lemma fragmentsOf_Nil: "fragmentsOf C [] = []"
  by (simp add: fragmentsOf_def)

lemma fragmentsOf_Cons:
  "fragmentsOf C (e # es) = (if strField e ''call_id'' = C then strField e ''delta'' else []) @ fragmentsOf C es"
  by (simp add: fragmentsOf_def)

lemma fragmentsOf_append: "fragmentsOf C (es @ es') = fragmentsOf C es @ fragmentsOf C es'"
  by (simp add: fragmentsOf_def)

lemma afterDeltas_Nil: "afterDeltas st [] = st"
  by (simp add: afterDeltas_def fragmentsOf_Nil)

lemma onArgumentsDelta_afterDeltas: "onArgumentsDelta st e = (Continue, afterDeltas st [e])"
proof -
  have "argBuf (afterDeltas st [e]) = argBuf (snd (onArgumentsDelta st e))"
    by (rule ext) (simp add: afterDeltas_def onArgumentsDelta_def fragmentsOf_Cons fragmentsOf_Nil Let_def)
  then have "afterDeltas st [e] = snd (onArgumentsDelta st e)"
    by (simp add: afterDeltas_def onArgumentsDelta_def Let_def)
  moreover have "fst (onArgumentsDelta st e) = Continue"
    by (simp add: onArgumentsDelta_def Let_def)
  ultimately show ?thesis by (simp add: prod_eq_iff)
qed

lemma afterDeltas_Cons: "afterDeltas (afterDeltas st [e]) es = afterDeltas st (e # es)"
proof -
  have "argBuf (afterDeltas (afterDeltas st [e]) es) C = argBuf (afterDeltas st (e # es)) C" for C
    by (simp add: afterDeltas_def fragmentsOf_Cons fragmentsOf_Nil split: option.splits)
  then have "argBuf (afterDeltas (afterDeltas st [e]) es) = argBuf (afterDeltas st (e # es))"
    by (rule ext)
  then show ?thesis by (simp add: afterDeltas_def)
qed

lemma afterEvents_deltas:
  "\<forall>e\<in>set es. strField e ''type'' = ''response.function_call_arguments.delta'' \<Longrightarrow>
   afterEvents L st es = Some (afterDeltas st es)"
proof (induction es arbitrary: st)
  case Nil
  then show ?case by (simp add: afterDeltas_Nil)
next
  case (Cons e es)
  then have "streamEvent L st e = (Continue, afterDeltas st [e])"
    by (simp add: streamEvent_arguments_delta onArgumentsDelta_afterDeltas)
  with Cons show ?case by (simp add: afterDeltas_Cons)
qed

lemma streamEvent_done_ok:
  assumes "strField evt ''type'' = ''response.function_call_arguments.done''"
    and "unmarshalArgs L (resolveArguments st evt) = Inr args"
    and "nextWriteSucceeds (conn st)"
  shows "streamEvent L st evt =
     (Continue,
      st\<lparr>conn := (conn st)\<lparr>written := written (conn st) @
                       [functionOutputMsg (strField evt ''call_id'')
                          (resultJSON L (multiply L (argA args) (argB args)))],
                     writeResults := tl (writeResults (conn st))\<rparr>,
         argBuf := (argBuf st)(strField evt ''call_id'' := None),
         needFollowUp := True\<rparr>)"
  using assms by (simp add: streamEvent_arguments_done onArgumentsDone_def sendFunctionOutput_ok Let_def)

lemma fragmentsOf_same:
  "list_all2 (\<lambda>e d. P e \<and> strField e ''call_id'' = C \<and> strField e ''delta'' = d) es frags \<Longrightarrow>
   fragmentsOf C es = concat frags"
  by (induction es frags rule: list_all2_induct) (simp_all add: fragmentsOf_Nil fragmentsOf_Cons)

lemma fragmentsOf_other:
  "list_all2 (\<lambda>e d. P e \<and> strField e ''call_id'' = C \<and> strField e ''delta'' = d) es frags \<Longrightarrow>
   C' \<noteq> C \<Longrightarrow> fragmentsOf C' es = []"
  by (induction es frags rule: list_all2_induct) (simp_all add: fragmentsOf_Nil fragmentsOf_Cons)

lemma done_observed_same:
  assumes "strField dn ''type'' = ''response.function_call_arguments.done''"
    and "strField dn1 ''type'' = ''response.function_call_arguments.done''"
    and "strField dn ''call_id'' = C" and "strField dn1 ''call_id'' = C"
    and "resolveArguments (st\<lparr>argBuf := (argBuf st)(C := b)\<rparr>) dn = resolveArguments st dn1"
  shows "map_option observed (streamLoop L (st\<lparr>argBuf := (argBuf st)(C := b)\<rparr>) (Recv dn # rest))
       = map_option observed (streamLoop L st (Recv dn1 # rest))"
  using assms
  by (auto simp add: streamEvent_arguments_done onArgumentsDone_def observed_def Let_def
      split: sum.splits prod.splits option.splits)

lemma sublist_extend: "sublist x m \<Longrightarrow> sublist x (p @ m @ q)"
proof -
  assume "sublist x m"
  then obtain ps ss where "m = ps @ x @ ss" by (auto simp: sublist_def)
  then have "p @ m @ q = (p @ ps) @ x @ (ss @ q)" by simp
  then show ?thesis unfolding sublist_def by blast
qed

lemma sublist_joinComma: "x \<in> set xs \<Longrightarrow> sublist x (joinComma xs)"
proof (induction xs rule: joinComma.induct)
  case 1
  then show ?case by simp
next
  case (2 y)
  then show ?case by simp
next
  case (3 y z zs)
  show ?case
  proof (cases "x = y")
    case True
    then show ?thesis by simp
  next
    case False
    with 3 have "sublist x (joinComma (z # zs))" by simp
    then have "sublist x ((y @ [CHR '','']) @ joinComma (z # zs) @ [])"
      by (rule sublist_extend)
    then show ?thesis by simp
  qed
qed

lemma marshal_embeds_member:
  assumes "finite (dom evt)" and "evt k = Some v"
  shows "sublist (appendString k @ CHR '':'' # marshalValue L v) (''server error: '' @ marshal L evt)"
proof -
  have "k \<in> set (sorted_list_of_set (dom evt))"
    using assms by auto
  then have "marshalMember L evt k \<in> set (map (marshalMember L evt) (sorted_list_of_set (dom evt)))"
    by simp
  then have "sublist (marshalMember L evt k)
               (joinComma (map (marshalMember L evt) (sorted_list_of_set (dom evt))))"
    by (rule sublist_joinComma)
  then have "sublist (marshalMember L evt k)
               ((''server error: '' @ ''{'') @
                joinComma (map (marshalMember L evt) (sorted_list_of_set (dom evt))) @ ''}'')"
    by (rule sublist_extend)
  then show ?thesis
    using assms(2) by (simp add: marshal_def marshalMember_def)
qed

lemma resolve_buffer:
  "strField dn ''arguments'' = [] \<Longrightarrow> argBuf st (strField dn ''call_id'') = bufferOf s \<Longrightarrow>
   resolveArguments st dn = s"
  by (simp add: resolveArguments_def bufferOf_def split: if_splits)

lemma argBuf_afterDeltas:
  "C \<noteq> [] \<Longrightarrow> argBuf st C = bufferOf s \<Longrightarrow> argBuf (afterDeltas st es) C = bufferOf (s @ fragmentsOf C es)"
  by (simp add: afterDeltas_def bufferOf_def)

lemma conn_afterDeltas: "conn (afterDeltas st es) = conn st"
  by (simp add: afterDeltas_def)

lemma functionOutputMsg_text:
  "functionOutputMsg C (resultJSON L (multiply L a b)) =
     JObj [(''type'', JStr ''conversation.item.create''),
           (''item'', JObj [(''type'', JStr ''function_call_output''),
                            (''call_id'', JStr C),
                            (''output'', JStr (''{\"result\": '' @ formatG L (fmul L a b) @ ''}''))])]"
  by (simp add: functionOutputMsg_def resultJSON_def multiply_def)

lemma readerStep_returned:
  "rpc t = Returned \<Longrightarrow>
     rpc (readerStep L t i) = Returned
   \<and> eventsClosed (readerStep L t i) = eventsClosed t
   \<and> errsClosed (readerStep L t i) = errsClosed t
   \<and> (\<exists>n. events (readerStep L t i) = drop n (events t))
   \<and> (\<exists>n. errs (readerStep L t i) = drop n (errs t))"
proof (cases i)
  case RecvEvent
  assume "rpc t = Returned"
  then have "readerStep L t i = t\<lparr>events := drop 1 (events t)\<rparr>"
    using RecvEvent by (simp add: readerStep_def proceed_def)
  moreover have "\<exists>n. errs t = drop n (errs t)" by (rule exI [of _ 0]) simp
  ultimately show ?thesis using \<open>rpc t = Returned\<close> by auto
next
  case RecvErr
  assume "rpc t = Returned"
  then have "readerStep L t i = t\<lparr>errs := drop 1 (errs t)\<rparr>"
    using RecvErr by (simp add: readerStep_def proceed_def)
  moreover have "\<exists>n. events t = drop n (events t)" by (rule exI [of _ 0]) simp
  ultimately show ?thesis using \<open>rpc t = Returned\<close> by auto
next
  case (RCtxDone x)
  assume "rpc t = Returned"
  then have "readerStep L t i = t" using RCtxDone by (simp add: readerStep_def)
  moreover have "\<exists>n. events t = drop n (events t)" "\<exists>n. errs t = drop n (errs t)"
    by (rule exI [of _ 0], simp)+
  ultimately show ?thesis using \<open>rpc t = Returned\<close> by simp
next
  case (ReadFail x)
  assume "rpc t = Returned"
  then have "readerStep L t i = t" using ReadFail by (simp add: readerStep_def)
  moreover have "\<exists>n. events t = drop n (events t)" "\<exists>n. errs t = drop n (errs t)"
    by (rule exI [of _ 0], simp)+
  ultimately show ?thesis using \<open>rpc t = Returned\<close> by simp
next
  case (ReadOk x)
  assume "rpc t = Returned"
  then have "readerStep L t i = t" using ReadOk by (simp add: readerStep_def)
  moreover have "\<exists>n. events t = drop n (events t)" "\<exists>n. errs t = drop n (errs t)"
    by (rule exI [of _ 0], simp)+
  ultimately show ?thesis using \<open>rpc t = Returned\<close> by simp
qed

lemma readerLoop_returned:
  "rpc t = Returned \<Longrightarrow>
     rpc (readerLoop L t sch) = Returned
   \<and> eventsClosed (readerLoop L t sch) = eventsClosed t
   \<and> errsClosed (readerLoop L t sch) = errsClosed t
   \<and> (\<exists>n. events (readerLoop L t sch) = drop n (events t))
   \<and> (\<exists>n. errs (readerLoop L t sch) = drop n (errs t))"
proof (induction sch arbitrary: t)
  case Nil
  have "\<exists>n. events t = drop n (events t)" "\<exists>n. errs t = drop n (errs t)"
    by (rule exI [of _ 0], simp)+
  with Nil show ?case by simp
next
  case (Cons i sch)
  let ?t = "readerStep L t i"
  from readerStep_returned [OF Cons.prems, of L i]
  obtain n m where s: "rpc ?t = Returned" "eventsClosed ?t = eventsClosed t"
    "errsClosed ?t = errsClosed t" "events ?t = drop n (events t)" "errs ?t = drop m (errs t)"
    by blast
  from Cons.IH [OF s(1)] obtain n' m' where
    r: "rpc (readerLoop L ?t sch) = Returned" "eventsClosed (readerLoop L ?t sch) = eventsClosed ?t"
    "errsClosed (readerLoop L ?t sch) = errsClosed ?t"
    "events (readerLoop L ?t sch) = drop n' (events ?t)" "errs (readerLoop L ?t sch) = drop m' (errs ?t)"
    by blast
  have "events (readerLoop L ?t sch) = drop (n' + n) (events t)"
    and "errs (readerLoop L ?t sch) = drop (m' + m) (errs t)"
    using r(4,5) s(4,5) by (simp_all add: add.commute)
  with r s show ?case by auto
qed

lemma readerLoop_bad_frames:
  "decodeEvent L bad = Inl e \<Longrightarrow> rpc st = AtLoop \<Longrightarrow> length (errs st) + n \<le> queueCap \<Longrightarrow>
   readerLoop L st (replicate n (ReadOk bad))
     = st\<lparr>errs := errs st @ replicate n (Wrap ''reader json unmarshal failed: '' e)\<rparr>"
proof (induction n arbitrary: st)
  case 0
  then show ?case by simp
next
  case (Suc n)
  let ?w = "Wrap ''reader json unmarshal failed: '' e"
  have step: "readerStep L st (ReadOk bad) = st\<lparr>errs := errs st @ [?w]\<rparr>"
    using Suc.prems by (simp add: readerStep_def observe_def proceed_def)
  have "readerLoop L (st\<lparr>errs := errs st @ [?w]\<rparr>) (replicate n (ReadOk bad))
        = st\<lparr>errs := errs st @ [?w]\<rparr>\<lparr>errs := errs (st\<lparr>errs := errs st @ [?w]\<rparr>) @ replicate n ?w\<rparr>"
    using Suc.prems by (intro Suc.IH) simp_all
  then show ?case by (simp add: step replicate_app_Cons_same)
qed


lemma readerLoop_append:
  "readerLoop L st (xs @ ys) = readerLoop L (readerLoop L st xs) ys"
  by (induction xs arbitrary: st) simp_all

lemma decodeEvent_x: "decodeEvent L ''x'' = Inl SyntaxError"
proof -
  have "parse ''x'' = None" by code_simp
  then show ?thesis by (simp add: decodeEvent_def)
qed

section \<open>The claims\<close>

text \<open>
  C6. An argument delta whose call identifier is empty, or whose text is empty, is
  ignored: the streamer goes on with its state as it was, so no buffer is created or
  changed, and the accumulated text and the follow-up flag are the same. An identifier
  or a text that is absent or not a string reads as empty.
\<close>

theorem ignored_arguments_delta:
  assumes "strField evt ''type'' = ''response.function_call_arguments.delta''"
    and "strField evt ''call_id'' = [] \<or> strField evt ''delta'' = []"
  shows "streamEvent L st evt = (Continue, st)
       \<and> streamLoop L st (Recv evt # rest) = streamLoop L st rest"
  using assms by (auto simp add: streamEvent_arguments_delta onArgumentsDelta_def)

theorem ignored_arguments_delta_witness:
  "strField [''type'' \<mapsto> JStr ''response.function_call_arguments.delta'',
             ''call_id'' \<mapsto> JStr ''call_1''] ''delta'' = []
   \<and> streamEvent exampleLib (sinit exampleConn)
        [''type'' \<mapsto> JStr ''response.function_call_arguments.delta'',
         ''call_id'' \<mapsto> JStr ''call_1'']
      = (Continue, sinit exampleConn)"
  using ignored_arguments_delta
    [of "[''type'' \<mapsto> JStr ''response.function_call_arguments.delta'',
          ''call_id'' \<mapsto> JStr ''call_1'']" exampleLib "sinit exampleConn" "[]"]
  by (simp add: strField_def)

text \<open>
  C3. When the streamer receives text deltas carrying the texts \<open>d1, \<dots>, dn\<close> and then a
  completion marker (\<^verbatim>\<open>response.text.done\<close> or \<^verbatim>\<open>response.done\<close>), it returns the text
  \<open>d1 @ \<dots> @ dn\<close>, no follow-up and no error, whatever the queue holds after the marker.
\<close>

theorem text_deltas_concatenate:
  assumes "list_all2 (\<lambda>e d. strField e ''type'' = ''response.text.delta'' \<and> e ''delta'' = Some (JStr d)) es ds"
    and "strField fin ''type'' = ''response.text.done'' \<or> strField fin ''type'' = ''response.done''"
  shows "map_option returned (streamAssistantTextFromChan L c (map Recv es @ Recv fin # rest))
         = Some (concat ds, False, None)"
proof -
  have "streamLoop L (sinit c) (map Recv es @ Recv fin # rest)
        = streamLoop L (afterText (sinit c) ds) (Recv fin # rest)"
    using afterEvents_text_deltas [OF assms(1)] by (rule streamLoop_afterEvents)
  moreover have "full (afterText (sinit c) ds) = concat ds"
    and "needFollowUp (afterText (sinit c) ds) = False"
    by (simp_all add: afterText_def sinit_def)
  ultimately show ?thesis
    using assms(2)
    by (simp add: streamAssistantTextFromChan_def streamEvent_done onDone_def returned_def)
qed

theorem text_deltas_concatenate_witness:
  "map_option returned (streamAssistantTextFromChan exampleLib exampleConn
      [Recv [''type'' \<mapsto> JStr ''response.text.delta'', ''delta'' \<mapsto> JStr ''Hello''],
       Recv [''type'' \<mapsto> JStr ''response.text.delta'', ''delta'' \<mapsto> JStr ''! How can I help?''],
       Recv [''type'' \<mapsto> JStr ''response.done'']])
   = Some (''Hello! How can I help?'', False, None)"
  using text_deltas_concatenate
    [of "[[''type'' \<mapsto> JStr ''response.text.delta'', ''delta'' \<mapsto> JStr ''Hello''],
          [''type'' \<mapsto> JStr ''response.text.delta'', ''delta'' \<mapsto> JStr ''! How can I help?'']]"
        "[''Hello'', ''! How can I help?'']"
        "[''type'' \<mapsto> JStr ''response.done'']" exampleLib exampleConn "[]"]
  by (simp add: strField_def)

text \<open>
  C10. A done event that carries no non-empty arguments string, for a call identifier
  that has no buffer, resolves to the empty argument text. The empty text is not JSON, so
  no tool is invoked and nothing is written: the streamer returns the argument error
  together with the text and the flag accumulated so far.
\<close>

theorem done_without_arguments_fails:
  assumes "strField evt ''type'' = ''response.function_call_arguments.done''"
    and "argBuf st (strField evt ''call_id'') = None"
    and "strField evt ''arguments'' = []"
  shows "resolveArguments st evt = []
       \<and> streamEvent L st evt = (Return (Some (Wrap ''bad function args: '' SyntaxError)), st)
       \<and> map_option returned (streamLoop L st (Recv evt # rest))
           = Some (full st, needFollowUp st, Some (Wrap ''bad function args: '' SyntaxError))"
proof -
  have r: "resolveArguments st evt = []"
    using assms(2,3) by (simp add: resolveArguments_def)
  then have "streamEvent L st evt = (Return (Some (Wrap ''bad function args: '' SyntaxError)), st)"
    using assms(1) by (simp add: streamEvent_arguments_done onArgumentsDone_def unmarshalArgs_empty)
  with r show ?thesis by (simp add: returned_def)
qed

theorem done_without_arguments_fails_witness:
  "map_option returned (streamLoop exampleLib (sinit exampleConn)
      [Recv [''type'' \<mapsto> JStr ''response.function_call_arguments.done'', ''call_id'' \<mapsto> JStr ''call_1'']])
   = Some ([], False, Some (Wrap ''bad function args: '' SyntaxError))"
proof -
  let ?e = "[''type'' \<mapsto> JStr ''response.function_call_arguments.done'', ''call_id'' \<mapsto> JStr ''call_1'']
              :: int event"
  have h1: "strField ?e ''type'' = ''response.function_call_arguments.done''"
    by (simp add: strField_def)
  have h2: "argBuf (sinit exampleConn) (strField ?e ''call_id'') = None"
    by (simp add: sinit_def)
  have h3: "strField ?e ''arguments'' = []"
    by (simp add: strField_def)
  have "full (sinit exampleConn) = []" and "needFollowUp (sinit exampleConn) = False"
    by (simp_all add: sinit_def)
  with done_without_arguments_fails [OF h1 h2 h3, of exampleLib "[]"] show ?thesis
    by (simp add: returned_def)
qed

text \<open>
  C2. On a done event for the call \<open>C\<close> the argument text is the arguments string of the
  event when that is not empty, and the buffer of \<open>C\<close> otherwise. When the text decodes
  and the write succeeds, the streamer goes on in a state where \<open>C\<close> has no buffer, one
  more message has been written, and the follow-up flag is set. The message is a
  \<^verbatim>\<open>conversation.item.create\<close> whose item has the type \<^verbatim>\<open>function_call_output\<close>, the
  call identifier \<open>C\<close> and, as its output, the text \<^verbatim>\<open>{"result": \<close>, the product of the two
  arguments as \<^verbatim>\<open>%g\<close> prints it, and \<^verbatim>\<open>}\<close>. The flag is never reset, so whenever the
  streamer returns after that, it returns follow-up = true.
\<close>

theorem arguments_done_dispatch:
  assumes "strField evt ''type'' = ''response.function_call_arguments.done''"
    and "unmarshalArgs L (resolveArguments st evt) = Inr args"
    and "nextWriteSucceeds (conn st)"
  shows "resolveArguments st evt =
           (if strField evt ''arguments'' \<noteq> [] then strField evt ''arguments''
            else case argBuf st (strField evt ''call_id'') of Some b \<Rightarrow> b | None \<Rightarrow> [])
       \<and> (\<exists>st'. streamEvent L st evt = (Continue, st')
             \<and> argBuf st' = (argBuf st)(strField evt ''call_id'' := None)
             \<and> written (conn st') = written (conn st) @
                  [JObj [(''type'', JStr ''conversation.item.create''),
                         (''item'', JObj [(''type'', JStr ''function_call_output''),
                                          (''call_id'', JStr (strField evt ''call_id'')),
                                          (''output'', JStr (''{\"result\": ''
                                              @ formatG L (fmul L (argA args) (argB args)) @ ''}''))])]]
             \<and> needFollowUp st'
             \<and> full st' = full st)
       \<and> (\<forall>stf r. streamLoop L st (Recv evt # rest) = Some (stf, r) \<longrightarrow> needFollowUp stf)"
proof -
  let ?C = "strField evt ''call_id''"
  let ?out = "resultJSON L (multiply L (argA args) (argB args))"
  let ?st' = "st\<lparr>conn := (conn st)\<lparr>written := written (conn st) @ [functionOutputMsg ?C ?out],
                                     writeResults := tl (writeResults (conn st))\<rparr>,
                 argBuf := (argBuf st)(?C := None), needFollowUp := True\<rparr>"
  have r: "resolveArguments st evt =
           (if strField evt ''arguments'' \<noteq> [] then strField evt ''arguments''
            else case argBuf st ?C of Some b \<Rightarrow> b | None \<Rightarrow> [])"
    by (simp add: resolveArguments_def)
  have ev: "streamEvent L st evt = (Continue, ?st')"
    using assms by (rule streamEvent_done_ok)
  have msg: "functionOutputMsg ?C ?out =
      JObj [(''type'', JStr ''conversation.item.create''),
            (''item'', JObj [(''type'', JStr ''function_call_output''),
                             (''call_id'', JStr ?C),
                             (''output'', JStr (''{\"result\": ''
                                 @ formatG L (fmul L (argA args) (argB args)) @ ''}''))])]"
    by (simp add: functionOutputMsg_def resultJSON_def multiply_def)
  have "needFollowUp stf" if "streamLoop L st (Recv evt # rest) = Some (stf, r)" for stf r
  proof -
    from that ev have "streamLoop L ?st' rest = Some (stf, r)" by simp
    moreover have "needFollowUp ?st'" by simp
    ultimately show ?thesis by (rule streamLoop_keeps_followUp [rotated])
  qed
  with r ev msg show ?thesis by simp
qed

theorem arguments_done_dispatch_witness:
  "(\<exists>st'. streamEvent exampleLib
             ((sinit exampleConn)\<lparr>argBuf := [''call_1'' \<mapsto> ''{\"a\":6,\"b\":7}'']\<rparr>)
             [''type'' \<mapsto> JStr ''response.function_call_arguments.done'', ''call_id'' \<mapsto> JStr ''call_1'']
           = (Continue, st')
         \<and> argBuf st' ''call_1'' = None
         \<and> written (conn st') =
             [JObj [(''type'', JStr ''conversation.item.create''),
                    (''item'', JObj [(''type'', JStr ''function_call_output''),
                                     (''call_id'', JStr ''call_1''),
                                     (''output'', JStr ''{\"result\": 42}'')])]]
         \<and> needFollowUp st')
   \<and> (\<exists>stf. streamLoop exampleLib
             ((sinit exampleConn)\<lparr>argBuf := [''call_1'' \<mapsto> ''{\"a\":6,\"b\":7}'']\<rparr>)
             [Recv [''type'' \<mapsto> JStr ''response.function_call_arguments.done'', ''call_id'' \<mapsto> JStr ''call_1''],
              Recv [''type'' \<mapsto> JStr ''response.done'']]
           = Some (stf, None)
         \<and> needFollowUp stf)"
proof -
  let ?e = "[''type'' \<mapsto> JStr ''response.function_call_arguments.done'', ''call_id'' \<mapsto> JStr ''call_1'']
              :: int event"
  let ?d = "[''type'' \<mapsto> JStr ''response.done''] :: int event"
  let ?st = "(sinit exampleConn)\<lparr>argBuf := [''call_1'' \<mapsto> ''{\"a\":6,\"b\":7}'']\<rparr>"
  have h1: "strField ?e ''type'' = ''response.function_call_arguments.done''"
    by (simp add: strField_def)
  have "resolveArguments ?st ?e = ''{\"a\":6,\"b\":7}''"
    by (simp add: resolveArguments_def strField_def)
  moreover have "unmarshalArgs exampleLib ''{\"a\":6,\"b\":7}'' = Inr \<lparr>argA = 6, argB = 7\<rparr>"
    by code_simp
  ultimately have h2: "unmarshalArgs exampleLib (resolveArguments ?st ?e) = Inr \<lparr>argA = 6, argB = 7\<rparr>"
    by simp
  have h3: "nextWriteSucceeds (conn ?st)"
    by (simp add: nextWriteSucceeds_def sinit_def exampleConn_def)
  have out: "''{\"result\": '' @ formatG exampleLib (fmul exampleLib 6 7) @ ''}'' = ''{\"result\": 42}''"
    by code_simp
  have c: "strField ?e ''call_id'' = ''call_1''"
    by (simp add: strField_def)
  note inst = arguments_done_dispatch [OF h1 h2 h3, of "[Recv ?d]"]
  from inst obtain st' where ev: "streamEvent exampleLib ?st ?e = (Continue, st')"
    and b: "argBuf st' ''call_1'' = None"
    and w: "written (conn st') =
             [JObj [(''type'', JStr ''conversation.item.create''),
                    (''item'', JObj [(''type'', JStr ''function_call_output''),
                                     (''call_id'', JStr ''call_1''),
                                     (''output'', JStr ''{\"result\": 42}'')])]]"
    and f: "needFollowUp st'"
    using out by (auto simp add: c sinit_def exampleConn_def)
  have d: "strField ?d ''type'' = ''response.done''"
    by (simp add: strField_def)
  have run: "streamLoop exampleLib ?st [Recv ?e, Recv ?d] = Some (snd (onDone st'), None)"
    using ev d by (simp add: streamEvent_done onDone_def)
  with inst have "needFollowUp (snd (onDone st'))" by blast
  with ev b w f run show ?thesis by blast
qed

text \<open>
  C7, as the source has it. A server error event makes the streamer and the wait return
  at once, whatever follows in the queue, with an error whose text is \<^verbatim>\<open>server error: \<close>
  followed by \<^verbatim>\<open>json.Marshal\<close> of the decoded event: the members of the event, each
  encoded again, in the order of their keys. Every member of the event is in that text.
  The streamer returns the error together with the text and the flag accumulated so far,
  and leaves the connection and the printed text as they were: after text deltas carrying
  \<open>ds\<close> the returned text is \<open>concat ds\<close>. The wait returns it after any events that are
  neither errors nor the expected one.
\<close>

theorem server_error_aborts:
  assumes "strField evt ''type'' = ''error''"
    and "list_all2 (\<lambda>e d. strField e ''type'' = ''response.text.delta'' \<and> e ''delta'' = Some (JStr d)) es ds"
    and "\<forall>e\<in>set pre. strField e ''type'' \<noteq> ''error'' \<and> strField e ''type'' \<noteq> expected"
    and "finite (dom evt)" and "evt k = Some v"
  shows "map_option observed (streamLoop L st (Recv evt # rest))
           = Some (full st, needFollowUp st, Some (New (''server error: '' @ marshal L evt)),
                   conn st, stdout st)
       \<and> map_option returned (streamAssistantTextFromChan L c (map Recv es @ Recv evt # rest))
           = Some (concat ds, False, Some (New (''server error: '' @ marshal L evt)))
       \<and> waitForEventTypeFromChan L (map Recv pre @ Recv evt # rest) expected
           = Some (Some (New (''server error: '' @ marshal L evt)))
       \<and> marshal L evt
           = CHR ''{'' # joinComma (map (marshalMember L evt) (sorted_list_of_set (dom evt))) @ ''}''
       \<and> sublist (appendString k @ CHR '':'' # marshalValue L v) (''server error: '' @ marshal L evt)"
proof -
  have one: "streamLoop L s (Recv evt # rest)
             = Some (s, Some (New (''server error: '' @ marshal L evt)))" for s
    using assms(1) by (simp add: streamEvent_error)
  have "streamLoop L (sinit c) (map Recv es @ Recv evt # rest)
        = streamLoop L (afterText (sinit c) ds) (Recv evt # rest)"
    using afterEvents_text_deltas [OF assms(2)] by (rule streamLoop_afterEvents)
  then have run: "streamLoop L (sinit c) (map Recv es @ Recv evt # rest)
        = Some (afterText (sinit c) ds, Some (New (''server error: '' @ marshal L evt)))"
    by (simp only: one)
  have "full (afterText (sinit c) ds) = concat ds"
    and "needFollowUp (afterText (sinit c) ds) = False"
    by (simp_all add: afterText_def sinit_def)
  then have two: "map_option returned (streamAssistantTextFromChan L c (map Recv es @ Recv evt # rest))
           = Some (concat ds, False, Some (New (''server error: '' @ marshal L evt)))"
    by (simp add: run streamAssistantTextFromChan_def returned_def)
  have three: "waitForEventTypeFromChan L (map Recv pre @ Recv evt # rest) expected
           = Some (Some (New (''server error: '' @ marshal L evt)))"
    using assms(1) by (simp add: wait_skip [OF assms(3)])
  have four: "sublist (appendString k @ CHR '':'' # marshalValue L v) (''server error: '' @ marshal L evt)"
    using assms(4,5) by (rule marshal_embeds_member)
  have zero: "map_option observed (streamLoop L st (Recv evt # rest))
           = Some (full st, needFollowUp st, Some (New (''server error: '' @ marshal L evt)),
                   conn st, stdout st)"
    by (simp only: one [of st]) (simp add: observed_def)
  have five: "marshal L evt
           = CHR ''{'' # joinComma (map (marshalMember L evt) (sorted_list_of_set (dom evt))) @ ''}''"
    by (simp add: marshal_def)
  from zero two three five four show ?thesis by (intro conjI)
qed

theorem server_error_aborts_witness:
  "map_option returned (streamAssistantTextFromChan exampleLib exampleConn
      [Recv [''type'' \<mapsto> JStr ''response.text.delta'', ''delta'' \<mapsto> JStr ''Hel''],
       Recv [''type'' \<mapsto> JStr ''error'', ''error'' \<mapsto> JObj [(''message'', JStr ''boom'')]],
       Recv [''type'' \<mapsto> JStr ''response.done'']])
     = Some (''Hel'', False,
             Some (New ''server error: {\"error\":{\"message\":\"boom\"},\"type\":\"error\"}''))
   \<and> waitForEventTypeFromChan exampleLib
      [Recv [''type'' \<mapsto> JStr ''session.updated''],
       Recv [''type'' \<mapsto> JStr ''error'', ''error'' \<mapsto> JObj [(''message'', JStr ''boom'')]],
       Recv [''type'' \<mapsto> JStr ''conversation.item.created'']] ''conversation.item.created''
     = Some (Some (New ''server error: {\"error\":{\"message\":\"boom\"},\"type\":\"error\"}''))
   \<and> sublist ''\"error\":{\"message\":\"boom\"}''
        ''server error: {\"error\":{\"message\":\"boom\"},\"type\":\"error\"}''"
proof -
  let ?err = "[''type'' \<mapsto> JStr ''error'', ''error'' \<mapsto> JObj [(''message'', JStr ''boom'')]] :: int event"
  let ?t = "[''type'' \<mapsto> JStr ''response.text.delta'', ''delta'' \<mapsto> JStr ''Hel''] :: int event"
  let ?u = "[''type'' \<mapsto> JStr ''session.updated''] :: int event"
  let ?d = "[''type'' \<mapsto> JStr ''response.done''] :: int event"
  let ?a = "[''type'' \<mapsto> JStr ''conversation.item.created''] :: int event"
  have h1: "strField ?err ''type'' = ''error''"
    by (simp add: strField_def)
  have h2: "list_all2 (\<lambda>e d. strField e ''type'' = ''response.text.delta'' \<and> e ''delta'' = Some (JStr d))
              [?t] [''Hel'']"
    by (simp add: strField_def)
  have h3: "\<forall>e\<in>set [?u]. strField e ''type'' \<noteq> ''error''
              \<and> strField e ''type'' \<noteq> ''conversation.item.created''"
    by (simp add: strField_def)
  have h4: "finite (dom ?err)"
    by simp
  have h5: "?err ''error'' = Some (JObj [(''message'', JStr ''boom'')])"
    by simp
  have m: "marshal exampleLib ?err = ''{\"error\":{\"message\":\"boom\"},\"type\":\"error\"}''"
    by (simp add: marshal_def marshalMember_def appendString_def escapeASCII_def)
  have v: "appendString ''error'' @ CHR '':'' # marshalValue exampleLib (JObj [(''message'', JStr ''boom'')])
           = ''\"error\":{\"message\":\"boom\"}''"
    by (simp add: appendString_def escapeASCII_def)
  note i1 = server_error_aborts [OF h1 h2 h3 h4 h5, of exampleLib "sinit exampleConn" "[Recv ?d]" exampleConn,
      unfolded m v]
  note i2 = server_error_aborts [OF h1 h2 h3 h4 h5, of exampleLib "sinit exampleConn" "[Recv ?a]" exampleConn,
      unfolded m v]
  have a: "map Recv [x] @ y # [z] = [Recv x, y, z]" for x :: "int event" and y z
    by simp
  from i1 have c1: "map_option returned (streamAssistantTextFromChan exampleLib exampleConn
                      (map Recv [?t] @ Recv ?err # [Recv ?d]))
     = Some (concat [''Hel''], False,
             Some (New (''server error: '' @ ''{\"error\":{\"message\":\"boom\"},\"type\":\"error\"}'')))"
    by (elim conjE)
  from i2 have c2: "waitForEventTypeFromChan exampleLib (map Recv [?u] @ Recv ?err # [Recv ?a])
       ''conversation.item.created''
     = Some (Some (New (''server error: '' @ ''{\"error\":{\"message\":\"boom\"},\"type\":\"error\"}'')))"
    by (elim conjE)
  from i1 have c3: "sublist ''\"error\":{\"message\":\"boom\"}''
        (''server error: '' @ ''{\"error\":{\"message\":\"boom\"},\"type\":\"error\"}'')"
    by (elim conjE)
  from c1 c2 c3 show ?thesis
    by (simp only: a append_Cons append_Nil concat.simps simp_thms)
qed

text \<open>
  C7 as stated says that the error embeds the payload of the event as it was received.
  It does not: the frame below is decoded to an event of two members, and the error that
  both loops return for it holds the members in the other order, so the frame is no part
  of the text of the error.
\<close>

theorem server_error_payload_counterexample:
  "decodeEvent exampleLib ''{\"type\":\"error\",\"error\":{\"message\":\"boom\"}}''
     = Inr [''type'' \<mapsto> JStr ''error'', ''error'' \<mapsto> JObj [(''message'', JStr ''boom'')]]
   \<and> streamLoop exampleLib (sinit exampleConn)
       [Recv [''type'' \<mapsto> JStr ''error'', ''error'' \<mapsto> JObj [(''message'', JStr ''boom'')]]]
     = Some (sinit exampleConn,
             Some (New ''server error: {\"error\":{\"message\":\"boom\"},\"type\":\"error\"}''))
   \<and> waitForEventTypeFromChan exampleLib
       [Recv [''type'' \<mapsto> JStr ''error'', ''error'' \<mapsto> JObj [(''message'', JStr ''boom'')]]]
       ''conversation.item.created''
     = Some (Some (New ''server error: {\"error\":{\"message\":\"boom\"},\"type\":\"error\"}''))
   \<and> \<not> sublist ''{\"type\":\"error\",\"error\":{\"message\":\"boom\"}}''
         ''server error: {\"error\":{\"message\":\"boom\"},\"type\":\"error\"}''"
proof -
  let ?evt = "[''type'' \<mapsto> JStr ''error'', ''error'' \<mapsto> JObj [(''message'', JStr ''boom'')]] :: int event"
  have p: "parse ''{\"type\":\"error\",\"error\":{\"message\":\"boom\"}}''
    = Some (JObj [(''type'', JStr ''error''), (''error'', JObj [(''message'', JStr ''boom'')])])"
    by code_simp
  have c: "convert exampleLib (JObj [(''type'', JStr ''error''), (''error'', JObj [(''message'', JStr ''boom'')])])
    = Some (JObj [(''error'', JObj [(''message'', JStr ''boom'')]), (''type'', JStr ''error'')])"
    by code_simp
  have d: "decodeEvent exampleLib ''{\"type\":\"error\",\"error\":{\"message\":\"boom\"}}'' = Inr ?evt"
    by (simp add: decodeEvent_def p c del: convert.simps)
  have m: "marshal exampleLib ?evt = ''{\"error\":{\"message\":\"boom\"},\"type\":\"error\"}''"
    by (simp add: marshal_def marshalMember_def appendString_def escapeASCII_def)
  have t: "strField ?evt ''type'' = ''error''"
    by (simp add: strField_def)
  have s: "streamLoop exampleLib (sinit exampleConn) [Recv ?evt]
     = Some (sinit exampleConn,
             Some (New ''server error: {\"error\":{\"message\":\"boom\"},\"type\":\"error\"}''))"
    using streamEvent_error [OF t, of exampleLib "sinit exampleConn"] by (simp add: m)
  have w: "waitForEventTypeFromChan exampleLib [Recv ?evt] ''conversation.item.created''
     = Some (Some (New ''server error: {\"error\":{\"message\":\"boom\"},\"type\":\"error\"}''))"
    using t by (simp add: m)
  have n: "\<not> sublist ''{\"type\":\"error\",\"error\":{\"message\":\"boom\"}}''
              ''server error: {\"error\":{\"message\":\"boom\"},\"type\":\"error\"}''"
    by code_simp
  from d s w n show ?thesis by (intro conjI)
qed

text \<open>
  C8. The three ways a stream or a wait can fail give three different errors: closure of
  the queue, the context being done (a timeout), and a server error event. Their
  messages are pairwise different, whatever the payload of the event, whichever context
  error is wrapped, and whatever texts the library gives its own errors.
\<close>

theorem failure_causes_distinguishable:
  assumes "strField evt ''type'' = ''error''"
    and "\<forall>e\<in>set pre. strField e ''type'' \<noteq> ''error'' \<and> strField e ''type'' \<noteq> expected"
  shows "streamLoop L st1 (ChanClosed # r1)
           = Some (st1, Some (New ''events channel closed during stream''))
       \<and> streamLoop L st2 (CtxDone ce # r2)
           = Some (st2, Some (Wrap ''stream timeout: '' (Ctx ce)))
       \<and> streamLoop L st3 (Recv evt # r3)
           = Some (st3, Some (New (''server error: '' @ marshal L evt)))
       \<and> errorText jt (New ''events channel closed during stream'')
           \<noteq> errorText jt (Wrap ''stream timeout: '' (Ctx ce))
       \<and> errorText jt (New ''events channel closed during stream'')
           \<noteq> errorText jt (New (''server error: '' @ marshal L evt))
       \<and> errorText jt (Wrap ''stream timeout: '' (Ctx ce))
           \<noteq> errorText jt (New (''server error: '' @ marshal L evt))
       \<and> waitForEventTypeFromChan L (map Recv pre @ ChanClosed # r1) expected
           = Some (Some (New (''events channel closed while waiting for '' @ expected)))
       \<and> waitForEventTypeFromChan L (map Recv pre @ CtxDone ce # r2) expected
           = Some (Some (Wrap (''timeout waiting for '' @ expected @ '': '') (Ctx ce)))
       \<and> waitForEventTypeFromChan L (map Recv pre @ Recv evt # r3) expected
           = Some (Some (New (''server error: '' @ marshal L evt)))
       \<and> errorText jt (New (''events channel closed while waiting for '' @ expected))
           \<noteq> errorText jt (Wrap (''timeout waiting for '' @ expected @ '': '') (Ctx ce))
       \<and> errorText jt (New (''events channel closed while waiting for '' @ expected))
           \<noteq> errorText jt (New (''server error: '' @ marshal L evt))
       \<and> errorText jt (Wrap (''timeout waiting for '' @ expected @ '': '') (Ctx ce))
           \<noteq> errorText jt (New (''server error: '' @ marshal L evt))"
  using assms(1) by (simp add: streamEvent_error wait_skip [OF assms(2)])

theorem failure_causes_distinguishable_witness:
  "streamLoop exampleLib (sinit exampleConn) [ChanClosed]
     = Some (sinit exampleConn, Some (New ''events channel closed during stream''))
   \<and> streamLoop exampleLib (sinit exampleConn) [CtxDone DeadlineExceeded]
     = Some (sinit exampleConn, Some (Wrap ''stream timeout: '' (Ctx DeadlineExceeded)))
   \<and> streamLoop exampleLib (sinit exampleConn) [Recv [''type'' \<mapsto> JStr ''error'']]
     = Some (sinit exampleConn, Some (New ''server error: {\"type\":\"error\"}''))
   \<and> waitForEventTypeFromChan exampleLib
       [Recv [''type'' \<mapsto> JStr ''session.updated''], ChanClosed] ''conversation.item.created''
     = Some (Some (New ''events channel closed while waiting for conversation.item.created''))
   \<and> waitForEventTypeFromChan exampleLib
       [Recv [''type'' \<mapsto> JStr ''session.updated''], CtxDone DeadlineExceeded] ''conversation.item.created''
     = Some (Some (Wrap ''timeout waiting for conversation.item.created: '' (Ctx DeadlineExceeded)))
   \<and> waitForEventTypeFromChan exampleLib
       [Recv [''type'' \<mapsto> JStr ''session.updated''], Recv [''type'' \<mapsto> JStr ''error'']]
       ''conversation.item.created''
     = Some (Some (New ''server error: {\"type\":\"error\"}''))"
proof -
  let ?err = "[''type'' \<mapsto> JStr ''error''] :: int event"
  let ?u = "[''type'' \<mapsto> JStr ''session.updated''] :: int event"
  have h1: "strField ?err ''type'' = ''error''"
    by (simp add: strField_def)
  have h2: "\<forall>e\<in>set [?u]. strField e ''type'' \<noteq> ''error''
              \<and> strField e ''type'' \<noteq> ''conversation.item.created''"
    by (simp add: strField_def)
  have m: "marshal exampleLib ?err = ''{\"type\":\"error\"}''"
    by (simp add: marshal_def marshalMember_def appendString_def escapeASCII_def)
  note inst = failure_causes_distinguishable [OF h1 h2, of exampleLib "sinit exampleConn" "[]"
      "sinit exampleConn" DeadlineExceeded "[]" "sinit exampleConn" "[]" "\<lambda>e. []", unfolded m]
  have a: "map Recv [?u] @ x # [] = [Recv ?u, x]" for x :: "int sel"
    by simp
  from inst [unfolded a] show ?thesis
    by (simp only: append_Cons append_Nil simp_thms)
qed

text \<open>
  C4. When the arguments of the call \<open>C\<close> (a non-empty identifier with no buffer yet)
  arrive as argument deltas carrying the fragments \<open>frags\<close>, the argument text resolved
  at a done event without an arguments string is \<open>concat frags\<close>, and the run is observed
  to do the same as a run that receives, in place of the deltas and that done event, one
  done event carrying \<open>concat frags\<close> as its arguments string: the same returned values,
  the same messages written, the same text printed.
\<close>

theorem split_arguments_equal_single_done:
  assumes "C \<noteq> []"
    and "list_all2 (\<lambda>e d. strField e ''type'' = ''response.function_call_arguments.delta''
                          \<and> strField e ''call_id'' = C \<and> strField e ''delta'' = d) es frags"
    and "argBuf st C = None"
    and "strField dn ''type'' = ''response.function_call_arguments.done''"
    and "strField dn ''call_id'' = C" and "strField dn ''arguments'' = []"
    and "strField dn1 ''type'' = ''response.function_call_arguments.done''"
    and "strField dn1 ''call_id'' = C" and "strField dn1 ''arguments'' = concat frags"
  shows "(\<exists>st'. afterEvents L st es = Some st' \<and> resolveArguments st' dn = concat frags)
       \<and> resolveArguments st dn1 = concat frags
       \<and> map_option observed (streamLoop L st (map Recv es @ Recv dn # rest))
           = map_option observed (streamLoop L st (Recv dn1 # rest))"
proof -
  have types: "\<forall>e\<in>set es. strField e ''type'' = ''response.function_call_arguments.delta''"
    using assms(2) by (induction es frags rule: list_all2_induct) simp_all
  have own: "fragmentsOf C es = concat frags"
    using assms(2) by (rule fragmentsOf_same)
  have other: "fragmentsOf C' es = []" if "C' \<noteq> C" for C'
    using assms(2) that by (rule fragmentsOf_other)
  have "argBuf (afterDeltas st es) C' = ((argBuf st)(C := bufferOf (concat frags))) C'" for C'
  proof (cases "C' = C")
    case True
    then show ?thesis using assms(1,3) by (simp add: afterDeltas_def own bufferOf_def)
  next
    case False
    then show ?thesis by (simp add: afterDeltas_def other)
  qed
  then have "argBuf (afterDeltas st es) = (argBuf st)(C := bufferOf (concat frags))"
    by (rule ext)
  then have shape: "afterDeltas st es = st\<lparr>argBuf := (argBuf st)(C := bufferOf (concat frags))\<rparr>"
    by (simp add: afterDeltas_def)
  have after: "afterEvents L st es = Some (afterDeltas st es)"
    using types by (rule afterEvents_deltas)
  have r: "resolveArguments (afterDeltas st es) dn = concat frags"
    using assms(5,6) by (simp add: shape resolveArguments_def bufferOf_def)
  have r1: "resolveArguments st dn1 = concat frags"
    using assms(3,8,9) by (simp add: resolveArguments_def)
  have "streamLoop L st (map Recv es @ Recv dn # rest)
        = streamLoop L (st\<lparr>argBuf := (argBuf st)(C := bufferOf (concat frags))\<rparr>) (Recv dn # rest)"
    using streamLoop_afterEvents [OF after] by (simp only: shape)
  moreover have "map_option observed
          (streamLoop L (st\<lparr>argBuf := (argBuf st)(C := bufferOf (concat frags))\<rparr>) (Recv dn # rest))
        = map_option observed (streamLoop L st (Recv dn1 # rest))"
    using assms(4,7,5,8) r r1 by (intro done_observed_same) (simp_all only: shape)
  ultimately show ?thesis using after r r1 by simp
qed


theorem split_arguments_equal_single_done_witness:
  "map_option observed (streamLoop exampleLib (sinit exampleConn)
      [Recv [''type'' \<mapsto> JStr ''response.function_call_arguments.delta'',
             ''call_id'' \<mapsto> JStr ''call_1'', ''delta'' \<mapsto> JStr ''{\"a\":6,''],
       Recv [''type'' \<mapsto> JStr ''response.function_call_arguments.delta'',
             ''call_id'' \<mapsto> JStr ''call_1'', ''delta'' \<mapsto> JStr ''\"b\":7}''],
       Recv [''type'' \<mapsto> JStr ''response.function_call_arguments.done'', ''call_id'' \<mapsto> JStr ''call_1''],
       Recv [''type'' \<mapsto> JStr ''response.done'']])
   = Some ([], True, None,
           \<lparr>written = [functionOutputMsg ''call_1'' ''{\"result\": 42}''], writeResults = []\<rparr>, [])"
proof -
  let ?d1 = "[''type'' \<mapsto> JStr ''response.function_call_arguments.delta'',
              ''call_id'' \<mapsto> JStr ''call_1'', ''delta'' \<mapsto> JStr ''{\"a\":6,''] :: int event"
  let ?d2 = "[''type'' \<mapsto> JStr ''response.function_call_arguments.delta'',
              ''call_id'' \<mapsto> JStr ''call_1'', ''delta'' \<mapsto> JStr ''\"b\":7}''] :: int event"
  let ?dn = "[''type'' \<mapsto> JStr ''response.function_call_arguments.done'',
              ''call_id'' \<mapsto> JStr ''call_1''] :: int event"
  let ?dn1 = "[''type'' \<mapsto> JStr ''response.function_call_arguments.done'',
               ''call_id'' \<mapsto> JStr ''call_1'', ''arguments'' \<mapsto> JStr ''{\"a\":6,\"b\":7}''] :: int event"
  let ?fin = "[''type'' \<mapsto> JStr ''response.done''] :: int event"
  have h1: "''call_1'' \<noteq> []" by simp
  have h2: "list_all2 (\<lambda>e d. strField e ''type'' = ''response.function_call_arguments.delta''
                          \<and> strField e ''call_id'' = ''call_1'' \<and> strField e ''delta'' = d)
              [?d1, ?d2] [''{\"a\":6,'', ''\"b\":7}'']"
    by (simp add: strField_def)
  have h3: "argBuf (sinit exampleConn) ''call_1'' = None"
    by (simp add: sinit_def)
  have h4: "strField ?dn ''type'' = ''response.function_call_arguments.done''"
    and h5: "strField ?dn ''call_id'' = ''call_1''" and h6: "strField ?dn ''arguments'' = []"
    by (simp_all add: strField_def)
  have h7: "strField ?dn1 ''type'' = ''response.function_call_arguments.done''"
    and h8: "strField ?dn1 ''call_id'' = ''call_1''"
    and h9: "strField ?dn1 ''arguments'' = concat [''{\"a\":6,'', ''\"b\":7}'']"
    by (simp_all add: strField_def)
  note inst = split_arguments_equal_single_done [OF h1 h2 h3 h4 h5 h6 h7 h8 h9, of exampleLib "[Recv ?fin]"]
  have u: "unmarshalArgs exampleLib ''{\"a\":6,\"b\":7}'' = Inr \<lparr>argA = 6, argB = 7\<rparr>"
    by code_simp
  have out: "resultJSON exampleLib (multiply exampleLib 6 7) = ''{\"result\": 42}''"
    by code_simp
  have res: "resolveArguments (sinit exampleConn) ?dn1 = ''{\"a\":6,\"b\":7}''"
    by (simp add: resolveArguments_def strField_def)
  have w: "nextWriteSucceeds (conn (sinit exampleConn))"
    by (simp add: nextWriteSucceeds_def sinit_def exampleConn_def)
  have ev: "streamEvent exampleLib (sinit exampleConn) ?dn1 =
     (Continue,
      (sinit exampleConn)\<lparr>conn := \<lparr>written = [functionOutputMsg ''call_1'' ''{\"result\": 42}''],
                                     writeResults = []\<rparr>,
         argBuf := (argBuf (sinit exampleConn))(''call_1'' := None),
         needFollowUp := True\<rparr>)"
  proof -
    have u': "unmarshalArgs exampleLib (resolveArguments (sinit exampleConn) ?dn1)
                = Inr \<lparr>argA = 6, argB = 7\<rparr>"
      by (simp only: res u)
    from streamEvent_done_ok [OF h7 u' w] show ?thesis
      by (simp add: h8 out sinit_def exampleConn_def)
  qed
  have fin: "strField ?fin ''type'' = ''response.done''"
    by (simp add: strField_def)
  have single: "map_option observed (streamLoop exampleLib (sinit exampleConn) [Recv ?dn1, Recv ?fin])
    = Some ([], True, None,
           \<lparr>written = [functionOutputMsg ''call_1'' ''{\"result\": 42}''], writeResults = []\<rparr>, [])"
  proof -
    have "streamLoop exampleLib (sinit exampleConn) [Recv ?dn1, Recv ?fin]
          = Some (snd (onDone ((sinit exampleConn)
               \<lparr>conn := \<lparr>written = [functionOutputMsg ''call_1'' ''{\"result\": 42}''],
                            writeResults = []\<rparr>,
                argBuf := (argBuf (sinit exampleConn))(''call_1'' := None),
                needFollowUp := True\<rparr>)), None)"
      using fin by (simp add: ev streamEvent_done onDone_def)
    then show ?thesis
      by (simp add: observed_def onDone_def sinit_def)
  qed
  from inst have "map_option observed (streamLoop exampleLib (sinit exampleConn)
                    (map Recv [?d1, ?d2] @ [Recv ?dn, Recv ?fin]))
                = map_option observed (streamLoop exampleLib (sinit exampleConn) [Recv ?dn1, Recv ?fin])"
    by blast
  then show ?thesis by (simp only: single list.map append_Cons append_Nil)
qed

text \<open>
  C5. Whatever the order in which argument deltas for different calls arrive, the buffer
  of each call holds the fragments that carry its own identifier, joined in their order
  of arrival, and nothing else. Two calls \<open>X\<close> and \<open>Y\<close> are dispatched in the order of their
  done events: when the done event of \<open>X\<close> arrives first (after the deltas \<open>es1\<close>) and the
  done event of \<open>Y\<close> later (after more deltas \<open>es2\<close>), the output for \<open>X\<close>, computed from the
  fragments of \<open>X\<close> alone, is written first, and the output for \<open>Y\<close>, computed from the
  fragments of \<open>Y\<close> alone, second. Here both argument texts decode and every write
  succeeds.
\<close>

theorem interleaved_calls_independent:
  assumes "\<forall>e\<in>set (es1 @ es2). strField e ''type'' = ''response.function_call_arguments.delta''"
    and "X \<noteq> []" and "Y \<noteq> []" and "X \<noteq> Y"
    and "strField dX ''type'' = ''response.function_call_arguments.done''"
    and "strField dX ''call_id'' = X" and "strField dX ''arguments'' = []"
    and "strField dY ''type'' = ''response.function_call_arguments.done''"
    and "strField dY ''call_id'' = Y" and "strField dY ''arguments'' = []"
    and "unmarshalArgs L (fragmentsOf X es1) = Inr ax"
    and "unmarshalArgs L (fragmentsOf Y (es1 @ es2)) = Inr ay"
    and "writeResults c = []"
  shows "(\<exists>st1. afterEvents L (sinit c) es1 = Some st1
            \<and> (\<forall>C. C \<noteq> [] \<longrightarrow> argBuf st1 C = bufferOf (fragmentsOf C es1)))
       \<and> (\<exists>st2. afterEvents L (sinit c) (es1 @ dX # es2 @ [dY]) = Some st2
            \<and> written (conn st2) = written c @
                 [JObj [(''type'', JStr ''conversation.item.create''),
                        (''item'', JObj [(''type'', JStr ''function_call_output''),
                                         (''call_id'', JStr X),
                                         (''output'', JStr (''{\"result\": ''
                                             @ formatG L (fmul L (argA ax) (argB ax)) @ ''}''))])],
                  JObj [(''type'', JStr ''conversation.item.create''),
                        (''item'', JObj [(''type'', JStr ''function_call_output''),
                                         (''call_id'', JStr Y),
                                         (''output'', JStr (''{\"result\": ''
                                             @ formatG L (fmul L (argA ay) (argB ay)) @ ''}''))])]])"
proof -
  let ?mX = "functionOutputMsg X (resultJSON L (multiply L (argA ax) (argB ax)))"
  let ?mY = "functionOutputMsg Y (resultJSON L (multiply L (argA ay) (argB ay)))"
  define st1 where "st1 = afterDeltas (sinit c) es1"
  define st1' where "st1' = st1\<lparr>conn := (conn st1)\<lparr>written := written (conn st1) @ [?mX],
                                   writeResults := tl (writeResults (conn st1))\<rparr>,
                               argBuf := (argBuf st1)(X := None), needFollowUp := True\<rparr>"
  define st2 where "st2 = afterDeltas st1' es2"
  define st2' where "st2' = st2\<lparr>conn := (conn st2)\<lparr>written := written (conn st2) @ [?mY],
                                   writeResults := tl (writeResults (conn st2))\<rparr>,
                               argBuf := (argBuf st2)(Y := None), needFollowUp := True\<rparr>"
  have t1: "\<forall>e\<in>set es1. strField e ''type'' = ''response.function_call_arguments.delta''"
    and t2: "\<forall>e\<in>set es2. strField e ''type'' = ''response.function_call_arguments.delta''"
    using assms(1) by simp_all
  have a1: "afterEvents L (sinit c) es1 = Some st1"
    unfolding st1_def using t1 by (rule afterEvents_deltas)
  have b1: "argBuf st1 C = bufferOf (fragmentsOf C es1)" if "C \<noteq> []" for C
  proof -
    have "argBuf (sinit c) C = bufferOf []" by (simp add: sinit_def bufferOf_def)
    from argBuf_afterDeltas [OF that this, of es1] show ?thesis by (simp add: st1_def)
  qed
  have c1: "conn st1 = c"
    by (simp add: st1_def conn_afterDeltas sinit_def)
  have rX: "resolveArguments st1 dX = fragmentsOf X es1"
    using assms(7) b1 [OF assms(2)] by (intro resolve_buffer) (simp_all add: assms(6))
  have wX: "nextWriteSucceeds (conn st1)"
    by (simp add: c1 nextWriteSucceeds_def assms(13))
  have eX: "streamEvent L st1 dX = (Continue, st1')"
    using streamEvent_done_ok [OF assms(5) _ wX, of L ax] assms(11)
    by (simp add: rX assms(6) st1'_def)
  have a2: "afterEvents L st1' es2 = Some st2"
    unfolding st2_def using t2 by (rule afterEvents_deltas)
  have "argBuf st1' Y = bufferOf (fragmentsOf Y es1)"
    using b1 [OF assms(3)] assms(4) by (simp add: st1'_def)
  from argBuf_afterDeltas [OF assms(3) this, of es2]
  have b2: "argBuf st2 Y = bufferOf (fragmentsOf Y (es1 @ es2))"
    by (simp add: st2_def fragmentsOf_append)
  have c2: "conn st2 = c\<lparr>written := written c @ [?mX]\<rparr>"
    by (simp add: st2_def conn_afterDeltas st1'_def c1 assms(13))
  have rY: "resolveArguments st2 dY = fragmentsOf Y (es1 @ es2)"
    using assms(10) b2 by (intro resolve_buffer) (simp_all add: assms(9))
  have wY: "nextWriteSucceeds (conn st2)"
    by (simp add: c2 nextWriteSucceeds_def assms(13))
  have eY: "streamEvent L st2 dY = (Continue, st2')"
    using streamEvent_done_ok [OF assms(8) _ wY, of L ay] assms(12)
    by (simp add: rY assms(9) st2'_def)
  have "afterEvents L (sinit c) (es1 @ dX # es2 @ [dY]) = Some st2'"
    by (simp add: afterEvents_append a1 eX a2 eY)
  moreover have "written (conn st2') = written c @ [?mX, ?mY]"
    by (simp add: st2'_def c2)
  ultimately have "\<exists>st2. afterEvents L (sinit c) (es1 @ dX # es2 @ [dY]) = Some st2
            \<and> written (conn st2) = written c @ [?mX, ?mY]"
    by blast
  moreover have "\<exists>st1. afterEvents L (sinit c) es1 = Some st1
            \<and> (\<forall>C. C \<noteq> [] \<longrightarrow> argBuf st1 C = bufferOf (fragmentsOf C es1))"
    using a1 b1 by blast
  ultimately show ?thesis
    by (simp only: functionOutputMsg_text)
qed



theorem interleaved_calls_independent_witness:
  "(\<exists>st1. afterEvents exampleLib (sinit exampleConn)
       [[''type'' \<mapsto> JStr ''response.function_call_arguments.delta'',
         ''call_id'' \<mapsto> JStr ''call_1'', ''delta'' \<mapsto> JStr ''{\"a\":6,''],
        [''type'' \<mapsto> JStr ''response.function_call_arguments.delta'',
         ''call_id'' \<mapsto> JStr ''call_2'', ''delta'' \<mapsto> JStr ''{\"a\":2,''],
        [''type'' \<mapsto> JStr ''response.function_call_arguments.delta'',
         ''call_id'' \<mapsto> JStr ''call_2'', ''delta'' \<mapsto> JStr ''\"b\":5}'']] = Some st1
      \<and> argBuf st1 ''call_1'' = Some ''{\"a\":6,''
      \<and> argBuf st1 ''call_2'' = Some ''{\"a\":2,\"b\":5}'')
   \<and> (\<exists>st2. afterEvents exampleLib (sinit exampleConn)
       [[''type'' \<mapsto> JStr ''response.function_call_arguments.delta'',
         ''call_id'' \<mapsto> JStr ''call_1'', ''delta'' \<mapsto> JStr ''{\"a\":6,''],
        [''type'' \<mapsto> JStr ''response.function_call_arguments.delta'',
         ''call_id'' \<mapsto> JStr ''call_2'', ''delta'' \<mapsto> JStr ''{\"a\":2,''],
        [''type'' \<mapsto> JStr ''response.function_call_arguments.delta'',
         ''call_id'' \<mapsto> JStr ''call_2'', ''delta'' \<mapsto> JStr ''\"b\":5}''],
        [''type'' \<mapsto> JStr ''response.function_call_arguments.done'', ''call_id'' \<mapsto> JStr ''call_2''],
        [''type'' \<mapsto> JStr ''response.function_call_arguments.delta'',
         ''call_id'' \<mapsto> JStr ''call_1'', ''delta'' \<mapsto> JStr ''\"b\":7}''],
        [''type'' \<mapsto> JStr ''response.function_call_arguments.done'', ''call_id'' \<mapsto> JStr ''call_1'']]
        = Some st2
      \<and> written (conn st2) =
          [JObj [(''type'', JStr ''conversation.item.create''),
                 (''item'', JObj [(''type'', JStr ''function_call_output''),
                                  (''call_id'', JStr ''call_2''),
                                  (''output'', JStr ''{\"result\": 10}'')])],
           JObj [(''type'', JStr ''conversation.item.create''),
                 (''item'', JObj [(''type'', JStr ''function_call_output''),
                                  (''call_id'', JStr ''call_1''),
                                  (''output'', JStr ''{\"result\": 42}'')])]])"
proof -
  let ?a1 = "[''type'' \<mapsto> JStr ''response.function_call_arguments.delta'',
              ''call_id'' \<mapsto> JStr ''call_1'', ''delta'' \<mapsto> JStr ''{\"a\":6,''] :: int event"
  let ?b1 = "[''type'' \<mapsto> JStr ''response.function_call_arguments.delta'',
              ''call_id'' \<mapsto> JStr ''call_2'', ''delta'' \<mapsto> JStr ''{\"a\":2,''] :: int event"
  let ?b2 = "[''type'' \<mapsto> JStr ''response.function_call_arguments.delta'',
              ''call_id'' \<mapsto> JStr ''call_2'', ''delta'' \<mapsto> JStr ''\"b\":5}''] :: int event"
  let ?a2 = "[''type'' \<mapsto> JStr ''response.function_call_arguments.delta'',
              ''call_id'' \<mapsto> JStr ''call_1'', ''delta'' \<mapsto> JStr ''\"b\":7}''] :: int event"
  let ?dB = "[''type'' \<mapsto> JStr ''response.function_call_arguments.done'',
              ''call_id'' \<mapsto> JStr ''call_2''] :: int event"
  let ?dA = "[''type'' \<mapsto> JStr ''response.function_call_arguments.done'',
              ''call_id'' \<mapsto> JStr ''call_1''] :: int event"
  have h1: "\<forall>e\<in>set ([?a1, ?b1, ?b2] @ [?a2]).
              strField e ''type'' = ''response.function_call_arguments.delta''"
    by (simp add: strField_def)
  have h2: "''call_2'' \<noteq> []" and h3: "''call_1'' \<noteq> []" and h4: "''call_2'' \<noteq> ''call_1''"
    by simp_all
  have h5: "strField ?dB ''type'' = ''response.function_call_arguments.done''"
    and h6: "strField ?dB ''call_id'' = ''call_2''" and h7: "strField ?dB ''arguments'' = []"
    and h8: "strField ?dA ''type'' = ''response.function_call_arguments.done''"
    and h9: "strField ?dA ''call_id'' = ''call_1''" and h10: "strField ?dA ''arguments'' = []"
    by (simp_all add: strField_def)
  have f1: "fragmentsOf ''call_1'' [?a1, ?b1, ?b2] = ''{\"a\":6,''"
    and f2: "fragmentsOf ''call_2'' [?a1, ?b1, ?b2] = ''{\"a\":2,\"b\":5}''"
    and f3: "fragmentsOf ''call_1'' ([?a1, ?b1, ?b2] @ [?a2]) = ''{\"a\":6,\"b\":7}''"
    by (simp_all add: fragmentsOf_def strField_def)
  have u2: "unmarshalArgs exampleLib ''{\"a\":2,\"b\":5}'' = Inr \<lparr>argA = 2, argB = 5\<rparr>"
    by code_simp
  have u1: "unmarshalArgs exampleLib ''{\"a\":6,\"b\":7}'' = Inr \<lparr>argA = 6, argB = 7\<rparr>"
    by code_simp
  have h11: "unmarshalArgs exampleLib (fragmentsOf ''call_2'' [?a1, ?b1, ?b2]) = Inr \<lparr>argA = 2, argB = 5\<rparr>"
    by (simp only: f2 u2)
  have h12: "unmarshalArgs exampleLib (fragmentsOf ''call_1'' ([?a1, ?b1, ?b2] @ [?a2]))
               = Inr \<lparr>argA = 6, argB = 7\<rparr>"
    by (simp only: f3 u1)
  have h13: "writeResults exampleConn = []"
    by (simp add: exampleConn_def)
  have o2: "''{\"result\": '' @ formatG exampleLib (fmul exampleLib 2 5) @ ''}'' = ''{\"result\": 10}''"
    by code_simp
  have o1: "''{\"result\": '' @ formatG exampleLib (fmul exampleLib 6 7) @ ''}'' = ''{\"result\": 42}''"
    by code_simp
  have w0: "written exampleConn = []"
    by (simp add: exampleConn_def)
  note inst = interleaved_calls_independent [OF h1 h2 h3 h4 h5 h6 h7 h8 h9 h10 h11 h12 h13]
  from inst obtain st1 where s1: "afterEvents exampleLib (sinit exampleConn) [?a1, ?b1, ?b2] = Some st1"
    and bufs: "\<forall>C. C \<noteq> [] \<longrightarrow> argBuf st1 C = bufferOf (fragmentsOf C [?a1, ?b1, ?b2])"
    by blast
  from bufs h3 have "argBuf st1 ''call_1'' = bufferOf (fragmentsOf ''call_1'' [?a1, ?b1, ?b2])"
    by blast
  then have b1: "argBuf st1 ''call_1'' = Some ''{\"a\":6,''"
    by (simp only: f1) (simp add: bufferOf_def)
  from bufs h2 have "argBuf st1 ''call_2'' = bufferOf (fragmentsOf ''call_2'' [?a1, ?b1, ?b2])"
    by blast
  then have b2: "argBuf st1 ''call_2'' = Some ''{\"a\":2,\"b\":5}''"
    by (simp only: f2) (simp add: bufferOf_def)
  from inst obtain st2 where
    s2: "afterEvents exampleLib (sinit exampleConn) ([?a1, ?b1, ?b2] @ ?dB # [?a2] @ [?dA]) = Some st2"
    and w: "written (conn st2) = written exampleConn @
                 [JObj [(''type'', JStr ''conversation.item.create''),
                        (''item'', JObj [(''type'', JStr ''function_call_output''),
                                         (''call_id'', JStr ''call_2''),
                                         (''output'', JStr (''{\"result\": ''
                                             @ formatG exampleLib (fmul exampleLib
                                                 (argA \<lparr>argA = 2, argB = 5\<rparr>) (argB \<lparr>argA = 2, argB = (5::int)\<rparr>)) @ ''}''))])],
                  JObj [(''type'', JStr ''conversation.item.create''),
                        (''item'', JObj [(''type'', JStr ''function_call_output''),
                                         (''call_id'', JStr ''call_1''),
                                         (''output'', JStr (''{\"result\": ''
                                             @ formatG exampleLib (fmul exampleLib
                                                 (argA \<lparr>argA = 6, argB = 7\<rparr>) (argB \<lparr>argA = 6, argB = (7::int)\<rparr>)) @ ''}''))])]]"
    by blast
  have l: "[?a1, ?b1, ?b2] @ ?dB # [?a2] @ [?dA] = [?a1, ?b1, ?b2, ?dB, ?a2, ?dA]"
    by simp
  from w have w': "written (conn st2) =
          [JObj [(''type'', JStr ''conversation.item.create''),
                 (''item'', JObj [(''type'', JStr ''function_call_output''),
                                  (''call_id'', JStr ''call_2''),
                                  (''output'', JStr ''{\"result\": 10}'')])],
           JObj [(''type'', JStr ''conversation.item.create''),
                 (''item'', JObj [(''type'', JStr ''function_call_output''),
                                  (''call_id'', JStr ''call_1''),
                                  (''output'', JStr ''{\"result\": 42}'')])]]"
    using o1 o2 by (simp add: w0)
  from s1 b1 b2 s2 [unfolded l] w' show ?thesis by blast
qed





text \<open>
  Claim C1 (streamAssistantTextFromChan, main.go 248-257, and the declaration of the tool,
  main.go 103).  The arguments of a call are decoded by \<^verbatim>\<open>json.Unmarshal\<close> into a struct of
  the two numbers \<open>a\<close> and \<open>b\<close>, and a member that the text lacks leaves its field at zero.
  The payload \<^verbatim>\<open>{"a":3,"b":4}\<close> is accepted.  The payload \<^verbatim>\<open>{"a":3}\<close> lacks the member
  \<open>b\<close>, which the declared schema of the tool lists as required, and is accepted as well,
  with \<open>b = 0\<close>: on an arguments-done event that carries it the streamer does not return
  the error \<open>bad function args\<close>; it multiplies, sends the function_call_output
  \<^verbatim>\<open>{"result": 0}\<close> for the call, marks the follow-up and goes on.
\<close>

theorem missing_field_accepted:
  "unmarshalArgs exampleLib ''{\"a\":3,\"b\":4}'' = Inr \<lparr>argA = 3, argB = 4\<rparr>
   \<and> unmarshalArgs exampleLib ''{\"a\":3}'' = Inr \<lparr>argA = 3, argB = 0\<rparr>
   \<and> streamEvent exampleLib (sinit exampleConn)
         [''type'' \<mapsto> JStr ''response.function_call_arguments.done'',
          ''call_id'' \<mapsto> JStr ''call_1'',
          ''arguments'' \<mapsto> JStr ''{\"a\":3}'']
       = (Continue,
          (sinit exampleConn)
            \<lparr>needFollowUp := True,
             conn := exampleConn
               \<lparr>written :=
                  [JObj [(''type'', JStr ''conversation.item.create''),
                         (''item'', JObj [(''type'', JStr ''function_call_output''),
                                          (''call_id'', JStr ''call_1''),
                                          (''output'', JStr ''{\"result\": 0}'')])]]\<rparr>\<rparr>)"
proof -
  let ?e = "[''type'' \<mapsto> JStr ''response.function_call_arguments.done'',
             ''call_id'' \<mapsto> JStr ''call_1'',
             ''arguments'' \<mapsto> JStr ''{\"a\":3}''] :: int event"
  have full: "unmarshalArgs exampleLib ''{\"a\":3,\"b\":4}'' = Inr \<lparr>argA = 3, argB = 4\<rparr>"
    by code_simp
  have part: "unmarshalArgs exampleLib ''{\"a\":3}'' = Inr \<lparr>argA = 3, argB = 0\<rparr>"
    by code_simp
  have out: "resultJSON exampleLib (multiply exampleLib 3 0) = ''{\"result\": 0}''"
    by code_simp
  have r: "resolveArguments (sinit exampleConn) ?e = ''{\"a\":3}''"
    by (simp add: resolveArguments_def strField_def)
  have "onArgumentsDone exampleLib (sinit exampleConn) ?e
       = (Continue,
          (sinit exampleConn)
            \<lparr>needFollowUp := True,
             conn := exampleConn
               \<lparr>written :=
                  [JObj [(''type'', JStr ''conversation.item.create''),
                         (''item'', JObj [(''type'', JStr ''function_call_output''),
                                          (''call_id'', JStr ''call_1''),
                                          (''output'', JStr ''{\"result\": 0}'')])]]\<rparr>\<rparr>)"
    unfolding onArgumentsDone_def r part
    by (simp add: out strField_def sendFunctionOutput_def marshalAndSend_def connWrite_def
        functionOutputMsg_def sinit_def exampleConn_def)
  then have ev: "streamEvent exampleLib (sinit exampleConn) ?e
       = (Continue,
          (sinit exampleConn)
            \<lparr>needFollowUp := True,
             conn := exampleConn
               \<lparr>written :=
                  [JObj [(''type'', JStr ''conversation.item.create''),
                         (''item'', JObj [(''type'', JStr ''function_call_output''),
                                          (''call_id'', JStr ''call_1''),
                                          (''output'', JStr ''{\"result\": 0}'')])]]\<rparr>\<rparr>)"
    by (simp add: streamEvent_def strField_def)
  from full part ev show ?thesis by (intro conjI)
qed

end
